theory Spec2Isabelle
  imports Main "HOL-Library.AList"
begin

section \<open>Values kept in the key-value store\<close>

text \<open>
  The entity module (\<open>entities.ts\<close>) keeps everything in Redis: hashes of text fields,
  sets of text members, and plain keys with an expiry (the apply lock). Some fields of a
  hash carry \<open>JSON.stringify\<close> output (\<open>artifacts\<close> of a run; \<open>resumes\<close>, \<open>answers\<close>
  and \<open>tags\<close> of a user) and are read back with \<open>JSON.parse\<close>.

  A JSON value is kept as the value \<open>JSON.parse\<close> gives back: \<open>Jsn v\<close> stands for the text
  \<open>JSON.stringify(v)\<close>. \<open>Txt s\<close> is any other text; the module never writes JSON through it,
  so a non-empty \<open>Txt\<close> handed to \<open>JSON.parse\<close> is text that is not JSON (a SyntaxError).
  The TypeScript interfaces carry strings, string arrays, string records and null only,
  so numbers and booleans are left out of \<open>jval\<close>. Characters are bytes: the case mapping
  below is the ASCII one.
\<close>

datatype jval = JNull | JStr string | JArr "jval list" | JObj "(string \<times> jval) list"

datatype hval = Txt string | Jsn jval

type_synonym hash = "(string \<times> hval) list"

datatype exn = TypeError | SyntaxError

text \<open>Joining with a separator (\<open>Array.prototype.join\<close>) and splitting on a one-character
  separator (\<open>String.prototype.split\<close>).\<close>

fun join :: "string \<Rightarrow> string list \<Rightarrow> string" where
  "join sep [] = []"
| "join sep [x] = x"
| "join sep (x # y # ys) = x @ sep @ join sep (y # ys)"

fun split_on :: "char \<Rightarrow> string \<Rightarrow> string list" where
  "split_on c [] = [[]]"
| "split_on c (x # xs) =
     (if x = c then [] # split_on c xs
      else (case split_on c xs of [] \<Rightarrow> [[x]] | w # ws \<Rightarrow> (x # w) # ws))"

text \<open>The text of a JSON value. Escapes inside strings are not modelled; the text is only
  needed where a field holding JSON is read as plain text, which the module never does with
  a field it wrote itself.\<close>

fun json_text :: "jval \<Rightarrow> string" where
  "json_text JNull = ''null''"
| "json_text (JStr s) = CHR 0x22 # s @ [CHR 0x22]"
| "json_text (JArr xs) = ''['' @ join '','' (map json_text xs) @ '']''"
| "json_text (JObj kvs) =
     ''{'' @ join '','' (map (\<lambda>(k, v). CHR 0x22 # k @ [CHR 0x22] @ '':'' @ json_text v) kvs) @ ''}''"

fun text_of :: "hval \<Rightarrow> string" where
  "text_of (Txt s) = s"
| "text_of (Jsn v) = json_text v"

text \<open>Reading a field of the object \<open>hgetall\<close> returns: \<open>None\<close> is JavaScript's
  \<open>undefined\<close>. A string is truthy when it is defined and not empty. A template literal
  prints \<open>undefined\<close> as the word.\<close>

definition fld :: "hash \<Rightarrow> string \<Rightarrow> string option" where
  "fld data f = map_option text_of (map_of data f)"

fun truthy :: "string option \<Rightarrow> bool" where
  "truthy None = False"
| "truthy (Some s) = (s \<noteq> [])"

fun str :: "string option \<Rightarrow> string" where
  "str None = ''undefined''"
| "str (Some s) = s"

section \<open>The store and its commands\<close>

text \<open>
  One key space, split by the kind of value a key holds. A set with no member and a hash
  with no field do not exist in Redis, so the empty list is the absent key. A plain key
  carries the instant at which it expires; \<open>clock\<close> is the server's time in seconds, and a
  key whose instant has been reached is gone. The key helpers give every family of keys
  its own leading text (\<open>board:\<close>, \<open>job:\<close>, \<open>run:\<close>, \<open>user:\<close>, \<open>lock:\<close>, \<open>idx:\<close>),
  so no operation of the module meets a key of the wrong kind, and \<open>WRONGTYPE\<close> replies
  are not modelled.

  An operation takes the reading of \<open>new Date().toISOString()\<close> as its parameter \<open>now\<close>;
  where one operation calls another, both get the same reading. An \<open>await\<close> is the
  sequencing of the calls: what other clients do in between is not part of a call.
\<close>

record store =
  hashes :: "string \<Rightarrow> hash"
  sets :: "string \<Rightarrow> string list"
  strs :: "string \<Rightarrow> (string \<times> nat) option"
  clock :: nat

definition empty_store :: store where
  "empty_store = \<lparr>hashes = (\<lambda>_. []), sets = (\<lambda>_. []), strs = (\<lambda>_. None), clock = 0\<rparr>"

definition live :: "store \<Rightarrow> string \<Rightarrow> bool" where
  "live s k = (case strs s k of None \<Rightarrow> False | Some (v, e) \<Rightarrow> clock s < e)"

definition exists_key :: "store \<Rightarrow> string \<Rightarrow> bool" where
  "exists_key s k = (hashes s k \<noteq> [] \<or> sets s k \<noteq> [] \<or> live s k)"

definition hgetall :: "store \<Rightarrow> string \<Rightarrow> hash" where
  "hgetall s k = hashes s k"

definition smembers :: "store \<Rightarrow> string \<Rightarrow> string list" where
  "smembers s k = sets s k"

definition hset :: "store \<Rightarrow> string \<Rightarrow> hash \<Rightarrow> store" where
  "hset s k fvs =
     s\<lparr>hashes := (hashes s)(k := foldl (\<lambda>h (f, v). AList.update f v h) (hashes s k) fvs)\<rparr>"

definition sadd :: "store \<Rightarrow> string \<Rightarrow> string \<Rightarrow> store" where
  "sadd s k m = (if m \<in> set (sets s k) then s else s\<lparr>sets := (sets s)(k := sets s k @ [m])\<rparr>)"

definition srem :: "store \<Rightarrow> string \<Rightarrow> string \<Rightarrow> store" where
  "srem s k m = s\<lparr>sets := (sets s)(k := removeAll m (sets s k))\<rparr>"

definition del :: "store \<Rightarrow> string \<Rightarrow> store" where
  "del s k = s\<lparr>hashes := (hashes s)(k := []), sets := (sets s)(k := []),
               strs := (strs s)(k := None)\<rparr>"

text \<open>\<open>SET key value EX ttl NX\<close>: sets the key only if it does not exist; the reply is
  \<open>OK\<close> (\<open>True\<close>) or nil.\<close>

definition set_ex_nx :: "store \<Rightarrow> string \<Rightarrow> string \<Rightarrow> nat \<Rightarrow> bool \<times> store" where
  "set_ex_nx s k v ttl =
     (if exists_key s k then (False, s)
      else (True, s\<lparr>strs := (strs s)(k \<mapsto> (v, clock s + ttl))\<rparr>))"

definition sunion :: "store \<Rightarrow> string list \<Rightarrow> string list" where
  "sunion s ks = remdups (concat (map (smembers s) ks))"

text \<open>\<open>SINTER\<close> needs at least one key; the module never calls it with none.\<close>

fun sinter :: "store \<Rightarrow> string list \<Rightarrow> string list" where
  "sinter s [] = []"
| "sinter s (k # ks) = filter (\<lambda>m. \<forall>k' \<in> set ks. m \<in> set (smembers s k')) (smembers s k)"

text \<open>A pipeline queues commands and sends them together; \<open>execPipe\<close> runs them in order.
  A failing store (an I/O error) is outside the model, so no command of a pipeline errs.\<close>

datatype cmd = HSet string hash | SAdd string string | SRem string string | Del string

fun exec_cmd :: "store \<Rightarrow> cmd \<Rightarrow> store" where
  "exec_cmd s (HSet k fvs) = hset s k fvs"
| "exec_cmd s (SAdd k m) = sadd s k m"
| "exec_cmd s (SRem k m) = srem s k m"
| "exec_cmd s (Del k) = del s k"

definition execPipe :: "store \<Rightarrow> cmd list \<Rightarrow> store" where
  "execPipe s pipe = foldl exec_cmd s pipe"

subsection \<open>Key helpers\<close>

definition K_board :: "string \<Rightarrow> string" where
  "K_board bid = ''board:'' @ bid"

definition K_boardsIdx :: string where
  "K_boardsIdx = ''idx:boards''"

definition K_job :: "string \<Rightarrow> string \<Rightarrow> string" where
  "K_job b jobId = ''job:'' @ b @ '':'' @ jobId"

definition K_boardJobsIdx :: "string \<Rightarrow> string" where
  "K_boardJobsIdx b = ''idx:board_jobs:'' @ b"

definition K_jobStatusIdx :: "string \<Rightarrow> string" where
  "K_jobStatusIdx st = ''idx:job_status:'' @ st"

definition K_tagIdx :: "string \<Rightarrow> string" where
  "K_tagIdx tag = ''idx:tag:'' @ tag"

definition K_run :: "string \<Rightarrow> string" where
  "K_run runId = ''run:'' @ runId"

definition K_jobRunsIdx :: "string \<Rightarrow> string" where
  "K_jobRunsIdx jobId = ''idx:job_runs:'' @ jobId"

definition K_runsAll :: string where
  "K_runsAll = ''idx:runs''"

definition K_applyLock :: "string \<Rightarrow> string \<Rightarrow> string" where
  "K_applyLock b jobId = ''lock:apply:'' @ b @ '':'' @ jobId"

definition K_user :: "string \<Rightarrow> string" where
  "K_user uid = ''user:'' @ uid"

definition K_usersIdx :: string where
  "K_usersIdx = ''idx:users''"

text \<open>The composite key \<open>`${board}:${jobId}`\<close> that the status and tag indexes hold.\<close>

definition ck_of :: "string \<Rightarrow> string \<Rightarrow> string" where
  "ck_of b jobId = b @ '':'' @ jobId"

section \<open>The tag classifier (\<open>tags.ts\<close>)\<close>

definition TAG_KEYWORDS :: "(string \<times> string list) list" where
  "TAG_KEYWORDS =
    [(''quant'',
       [''quant'', ''quantitative'', ''trading'', ''risk'', ''alpha'', ''signal'',
        ''portfolio'', ''derivatives'', ''options'', ''futures'', ''hft'',
        ''low latency'', ''market making'', ''execution'', ''pricing'',
        ''stochastic'', ''statistical'', ''backtesting'', ''factor'',
        ''systematic'', ''algo'', ''algorithmic'']),
     (''ml'',
       [''machine learning'', ''ml'', ''deep learning'', ''neural'',
        ''nlp'', ''natural language'', ''computer vision'', ''cv'',
        ''data scientist'', ''data science'', ''ai '']),
     (''engineering'',
       [''engineer'', ''developer'', ''software'', ''swe'', ''devops'',
        ''infrastructure'', ''platform'', ''backend'', ''back-end'',
        ''fullstack'', ''full-stack'']),
     (''frontend'', [''frontend'', ''front-end'', ''react'', ''ui'', ''ux'']),
     (''research'', [''research'', ''researcher'']),
     (''analyst'', [''analyst'', ''analysis'', ''analytics'']),
     (''data'', [''data engineer'', ''data pipeline'', ''etl'', ''spark'', ''airflow'']),
     (''intern'', [''intern'', ''internship'']),
     (''senior'', [''senior'', ''staff'', ''principal'', ''lead'', ''director'']),
     (''junior'', [''junior'', ''associate'', ''entry level'', ''new grad'']),
     (''systems'',
       [''c++'', ''rust'', ''fpga'', ''embedded'', ''systems'',
        ''kdb'', ''q language'', ''low latency''])]"

definition lower_char :: "char \<Rightarrow> char" where
  "lower_char c =
     (let n = (of_char c :: nat) in if 65 \<le> n \<and> n \<le> 90 then char_of (n + 32) else c)"

definition toLowerCase :: "string \<Rightarrow> string" where
  "toLowerCase s = map lower_char s"

definition starts_with :: "string \<Rightarrow> string \<Rightarrow> bool" where
  "starts_with s p = (take (length p) s = p)"

fun includes_str :: "string \<Rightarrow> string \<Rightarrow> bool" where
  "includes_str [] kw = (kw = [])"
| "includes_str (c # cs) kw = (starts_with (c # cs) kw \<or> includes_str cs kw)"

definition extractTags :: "string \<Rightarrow> string \<Rightarrow> string list" where
  "extractTags ttl dept =
     (let combined = toLowerCase (ttl @ '' '' @ dept)
      in map fst (filter (\<lambda>(tag, keywords). \<exists>kw \<in> set keywords. includes_str combined kw)
                         TAG_KEYWORDS))"

section \<open>Boards\<close>

record Board =
  board_id :: string
  company :: string
  ats :: string
  created_at :: string

definition addBoard :: "store \<Rightarrow> string \<Rightarrow> string \<Rightarrow> string \<Rightarrow> string \<Rightarrow> Board \<times> store" where
  "addBoard s now bid cname a =
     (let board = \<lparr>board_id = bid, company = cname, ats = a, created_at = now\<rparr>;
          pipe = [HSet (K_board bid)
                    [(''id'', Txt bid), (''company'', Txt cname), (''ats'', Txt a),
                     (''created_at'', Txt now)],
                  SAdd K_boardsIdx bid]
      in (board, execPipe s pipe))"

text \<open>The commands \<open>removeBoard\<close> queues for one job of the board. The job's hash is read
  while the pipeline is still being filled, that is, in the state before any removal.\<close>

definition board_job_removal :: "store \<Rightarrow> string \<Rightarrow> string \<Rightarrow> cmd list" where
  "board_job_removal s bid jobId =
     (let jobKey = K_job bid jobId;
          jobData = hgetall s jobKey
      in (if truthy (fld jobData ''status'')
          then [SRem (K_jobStatusIdx (str (fld jobData ''status''))) (ck_of bid jobId)] else [])
         @ (if truthy (fld jobData ''tags'')
            then map (\<lambda>tag. SRem (K_tagIdx tag) (ck_of bid jobId))
                     (split_on CHR '','' (str (fld jobData ''tags'')))
            else [])
         @ [Del jobKey])"

definition removeBoard :: "store \<Rightarrow> string \<Rightarrow> bool \<times> store" where
  "removeBoard s bid =
     (if \<not> exists_key s (K_board bid) then (False, s)
      else
        let jobIds = smembers s (K_boardJobsIdx bid);
            pipe = concat (map (board_job_removal s bid) jobIds)
                   @ [Del (K_boardJobsIdx bid), Del (K_board bid), SRem K_boardsIdx bid]
        in (True, execPipe s pipe))"

section \<open>Jobs\<close>

record JobInput =
  job_id :: string
  board :: string
  title :: string
  url :: string
  location :: string
  department :: string

record Job = JobInput +
  tags :: "string list"
  status :: string
  discovered_at :: string
  updated_at :: string

datatype job_status = Discovered | Queued | Applied | Found | Rejected | Expired

fun job_status_text :: "job_status \<Rightarrow> string" where
  "job_status_text Discovered = ''discovered''"
| "job_status_text Queued = ''queued''"
| "job_status_text Applied = ''applied''"
| "job_status_text Found = ''found''"
| "job_status_text Rejected = ''rejected''"
| "job_status_text Expired = ''expired''"

text \<open>\<open>addJob\<close> and the loop body of \<open>addJobsBulk\<close> build the same record and queue the
  same commands; \<open>full_job\<close> and \<open>add_job_cmds\<close> are that shared text.\<close>

definition full_job :: "string \<Rightarrow> JobInput \<Rightarrow> Job" where
  "full_job now job =
     \<lparr>job_id = job_id job, board = board job, title = title job, url = url job,
      location = location job, department = department job,
      tags = extractTags (title job) (department job), status = ''discovered'',
      discovered_at = now, updated_at = now\<rparr>"

definition add_job_cmds :: "string \<Rightarrow> JobInput \<Rightarrow> cmd list" where
  "add_job_cmds now job =
     (let tgs = extractTags (title job) (department job);
          ck = ck_of (board job) (job_id job)
      in [HSet (K_job (board job) (job_id job))
            [(''job_id'', Txt (job_id job)), (''board'', Txt (board job)),
             (''title'', Txt (title job)), (''url'', Txt (url job)),
             (''location'', Txt (location job)), (''department'', Txt (department job)),
             (''tags'', Txt (join '','' tgs)), (''status'', Txt ''discovered''),
             (''discovered_at'', Txt now), (''updated_at'', Txt now)],
          SAdd (K_boardJobsIdx (board job)) (job_id job),
          SAdd (K_jobStatusIdx ''discovered'') ck]
         @ map (\<lambda>tag. SAdd (K_tagIdx tag) ck) tgs)"

definition addJob :: "store \<Rightarrow> string \<Rightarrow> JobInput \<Rightarrow> Job \<times> store" where
  "addJob s now job = (full_job now job, execPipe s (add_job_cmds now job))"

definition addJobsBulk :: "store \<Rightarrow> string \<Rightarrow> JobInput list \<Rightarrow> Job list \<times> store" where
  "addJobsBulk s now jobs =
     (if jobs = [] then ([], s)
      else
        let existChecks = map (\<lambda>j. exists_key s (K_job (board j) (job_id j))) jobs;
            newJobs = map fst (filter (\<lambda>(j, e). \<not> e) (zip jobs existChecks))
        in if newJobs = [] then ([], s)
           else (map (full_job now) newJobs,
                 execPipe s (concat (map (add_job_cmds now) newJobs))))"

definition removeJob :: "store \<Rightarrow> string \<Rightarrow> string \<Rightarrow> bool \<times> store" where
  "removeJob s b jobId =
     (let key = K_job b jobId;
          data = hgetall s key
      in if \<not> truthy (fld data ''job_id'') then (False, s)
         else
           let ck = ck_of b jobId;
               pipe = (if truthy (fld data ''status'')
                       then [SRem (K_jobStatusIdx (str (fld data ''status''))) ck] else [])
                      @ (if truthy (fld data ''tags'')
                         then map (\<lambda>tag. SRem (K_tagIdx tag) ck)
                                  (split_on CHR '','' (str (fld data ''tags'')))
                         else [])
                      @ [SRem (K_boardJobsIdx b) jobId, Del key]
           in (True, execPipe s pipe))"

text \<open>A job read back from its hash is the object \<open>{...data, tags: [...]}\<close>: the fields as
  the hash has them (\<open>row\<close>) and the tag list split out of the \<open>tags\<close> field.\<close>

record JobRow =
  row :: hash
  row_tags :: "string list"

definition split_tags :: "hash \<Rightarrow> string list" where
  "split_tags data =
     (if truthy (fld data ''tags'') then split_on CHR '','' (str (fld data ''tags'')) else [])"

definition updateJobStatus ::
  "store \<Rightarrow> string \<Rightarrow> string \<Rightarrow> string \<Rightarrow> job_status \<Rightarrow> JobRow option \<times> store" where
  "updateJobStatus s now b jobId newStatus =
     (let key = K_job b jobId;
          data = hgetall s key
      in if \<not> truthy (fld data ''job_id'') then (None, s)
         else
           let oldStatus = fld data ''status'';
               ck = ck_of b jobId;
               pipe = [HSet key [(''status'', Txt (job_status_text newStatus)),
                                 (''updated_at'', Txt now)]]
                      @ (if truthy oldStatus then [SRem (K_jobStatusIdx (str oldStatus)) ck]
                         else [])
                      @ [SAdd (K_jobStatusIdx (job_status_text newStatus)) ck]
           in (Some \<lparr>row = AList.update ''updated_at'' (Txt now)
                              (AList.update ''status'' (Txt (job_status_text newStatus)) data),
                     row_tags = split_tags data\<rparr>,
               execPipe s pipe))"

definition parseJobHash :: "hash \<Rightarrow> JobRow option" where
  "parseJobHash data =
     (if \<not> truthy (fld data ''job_id'') then None
      else Some \<lparr>row = data, row_tags = split_tags data\<rparr>)"

definition getJob :: "store \<Rightarrow> string \<Rightarrow> string \<Rightarrow> JobRow option" where
  "getJob s b jobId =
     (let data = hgetall s (K_job b jobId)
      in if \<not> truthy (fld data ''job_id'') then None
         else Some \<lparr>row = data, row_tags = split_tags data\<rparr>)"

text \<open>\<open>const [board, jobId] = ck.split(":")\<close> followed by the read of the job's hash: the
  first two pieces of the composite key, a missing one being \<open>undefined\<close>.\<close>

definition hydrate_ck :: "store \<Rightarrow> string \<Rightarrow> JobRow option" where
  "hydrate_ck s ck =
     (case split_on CHR '':'' ck of
        [] \<Rightarrow> parseJobHash (hgetall s (K_job ''undefined'' ''undefined''))
      | [b] \<Rightarrow> parseJobHash (hgetall s (K_job b ''undefined''))
      | b # jobId # _ \<Rightarrow> parseJobHash (hgetall s (K_job b jobId)))"

record ListOpts =
  opt_board :: "string option"
  opt_status :: "string option"
  opt_tag :: "string option"

definition listJobs :: "store \<Rightarrow> ListOpts \<Rightarrow> JobRow list" where
  "listJobs s opts =
     (let sets0 = (if truthy (opt_board opts) then [K_boardJobsIdx (str (opt_board opts))] else [])
                  @ (if truthy (opt_status opts) then [K_jobStatusIdx (str (opt_status opts))]
                     else [])
                  @ (if truthy (opt_tag opts) then [K_tagIdx (str (opt_tag opts))] else []);
          compositeKeys =
            (if length sets0 = 0 then
               concat (map (\<lambda>bid. map (\<lambda>jid. ck_of bid jid) (smembers s (K_boardJobsIdx bid)))
                           (smembers s K_boardsIdx))
             else if truthy (opt_board opts) \<and> length sets0 = 1 then
               map (\<lambda>jid. ck_of (str (opt_board opts)) jid)
                   (smembers s (K_boardJobsIdx (str (opt_board opts))))
             else if truthy (opt_board opts) then
               (let boardCKs = map (\<lambda>jid. ck_of (str (opt_board opts)) jid)
                                   (smembers s (K_boardJobsIdx (str (opt_board opts))));
                    otherSets = filter (\<lambda>k. k \<noteq> K_boardJobsIdx (str (opt_board opts))) sets0;
                    members = (if length otherSets = 1 then smembers s (hd otherSets)
                               else sinter s otherSets)
                in filter (\<lambda>ck. ck \<in> set boardCKs) members)
             else if length sets0 = 1 then smembers s (hd sets0)
             else sinter s sets0)
      in map the (filter (\<lambda>j. j \<noteq> None) (map (hydrate_ck s) compositeKeys)))"

section \<open>JavaScript on JSON values\<close>

text \<open>\<open>JSON.parse(data.f || fallback)\<close> and \<open>data.f ? JSON.parse(data.f) : fallback\<close>:
  an absent or empty field gives the fallback, text that is not JSON throws.\<close>

fun parse_field :: "hval option \<Rightarrow> jval \<Rightarrow> exn + jval" where
  "parse_field None d = Inr d"
| "parse_field (Some (Txt t)) d = (if t = [] then Inr d else Inl SyntaxError)"
| "parse_field (Some (Jsn v)) d = Inr v"

fun dec :: "nat \<Rightarrow> string" where
  "dec n = (if n < 10 then [char_of (48 + n)] else dec (n div 10) @ [char_of (48 + n mod 10)])"

text \<open>The own enumerable properties an object spread copies: those of an object, the
  indexed elements of an array or a string, none of \<open>null\<close>. (JavaScript lists keys that
  look like integers first; the order of keys is not used below.)\<close>

fun props :: "jval \<Rightarrow> (string \<times> jval) list" where
  "props JNull = []"
| "props (JObj kvs) = kvs"
| "props (JArr xs) = zip (map dec [0..<length xs]) xs"
| "props (JStr t) = zip (map dec [0..<length t]) (map (\<lambda>c. JStr [c]) t)"

text \<open>\<open>{...a, ...b}\<close>: the properties of \<open>a\<close>, then each property of \<open>b\<close> written over
  the one of the same name or added at the end.\<close>

definition spread :: "jval \<Rightarrow> jval \<Rightarrow> (string \<times> jval) list" where
  "spread a b = foldl (\<lambda>acc (k, v). AList.update k v acc) (props a) (props b)"

text \<open>\<open>existing.answers\<close>: reading a property of \<open>null\<close> throws; an array or a string has
  no such property.\<close>

fun answers_of :: "jval \<Rightarrow> exn + jval option" where
  "answers_of JNull = Inl TypeError"
| "answers_of (JObj kvs) = Inr (map_of kvs ''answers'')"
| "answers_of (JArr xs) = Inr None"
| "answers_of (JStr t) = Inr None"

fun truthy_j :: "jval option \<Rightarrow> bool" where
  "truthy_j None = False"
| "truthy_j (Some JNull) = False"
| "truthy_j (Some (JStr t)) = (t \<noteq> [])"
| "truthy_j (Some (JArr xs)) = True"
| "truthy_j (Some (JObj kvs)) = True"

text \<open>A value inside a template literal.\<close>

fun js_string :: "jval \<Rightarrow> string" where
  "js_string JNull = ''null''"
| "js_string (JStr t) = t"
| "js_string (JArr xs) = join '','' (map (\<lambda>x. if x = JNull then [] else js_string x) xs)"
| "js_string (JObj kvs) = ''[object Object]''"

fun collect :: "(exn + 'a) list \<Rightarrow> exn + 'a list" where
  "collect [] = Inr []"
| "collect (Inl e # xs) = Inl e"
| "collect (Inr x # xs) = (case collect xs of Inl e \<Rightarrow> Inl e | Inr ys \<Rightarrow> Inr (x # ys))"

section \<open>Users\<close>

record User =
  user_id :: string
  resumes :: jval
  answers :: jval
  user_tags :: jval
  user_updated_at :: "string option"

definition upsertUser ::
  "store \<Rightarrow> string \<Rightarrow> string \<Rightarrow> string list \<Rightarrow> (string \<times> string) list \<Rightarrow> string list
     \<Rightarrow> User \<times> store" where
  "upsertUser s now uid rs ans tgs =
     (let pipe = [HSet (K_user uid)
                    [(''id'', Txt uid),
                     (''resumes'', Jsn (JArr (map JStr rs))),
                     (''answers'', Jsn (JObj (map (\<lambda>(k, v). (k, JStr v)) ans))),
                     (''tags'', Jsn (JArr (map JStr tgs))),
                     (''updated_at'', Txt now)],
                  SAdd K_usersIdx uid]
      in (\<lparr>user_id = uid, resumes = JArr (map JStr rs),
            answers = JObj (map (\<lambda>(k, v). (k, JStr v)) ans),
            user_tags = JArr (map JStr tgs), user_updated_at = Some now\<rparr>,
          execPipe s pipe))"

definition getUser :: "store \<Rightarrow> string \<Rightarrow> exn + User option" where
  "getUser s uid =
     (let data = hgetall s (K_user uid)
      in if \<not> truthy (fld data ''id'') then Inr None
         else
           (case parse_field (map_of data ''resumes'') (JArr []) of
              Inl e \<Rightarrow> Inl e
            | Inr rs \<Rightarrow>
              (case parse_field (map_of data ''answers'') (JObj []) of
                 Inl e \<Rightarrow> Inl e
               | Inr ans \<Rightarrow>
                 (case parse_field (map_of data ''tags'') (JArr []) of
                    Inl e \<Rightarrow> Inl e
                  | Inr tgs \<Rightarrow>
                    Inr (Some \<lparr>user_id = str (fld data ''id''), resumes = rs, answers = ans,
                               user_tags = tgs,
                               user_updated_at = fld data ''updated_at''\<rparr>)))))"

record UserOpts =
  uo_board :: "string option"
  uo_status :: "string option"

text \<open>The part of \<open>listJobsForUser\<close> after the guard, for a user whose tags are the
  non-empty array \<open>ts\<close>.\<close>

definition jobs_for_tags :: "store \<Rightarrow> jval list \<Rightarrow> UserOpts \<Rightarrow> JobRow list" where
  "jobs_for_tags s ts opts =
     (let st = (if truthy (uo_status opts) then str (uo_status opts) else ''discovered'');
          tagSets = map (\<lambda>t. K_tagIdx (js_string t)) ts;
          candidateKeys = (if length tagSets = 1 then smembers s (hd tagSets)
                           else sunion s tagSets);
          statusMembers = smembers s (K_jobStatusIdx st);
          filtered = filter (\<lambda>ck. ck \<in> set statusMembers) candidateKeys;
          filtered2 = (if truthy (uo_board opts)
                       then filter (\<lambda>ck. starts_with ck (str (uo_board opts) @ '':'')) filtered
                       else filtered)
      in map the (filter (\<lambda>j. j \<noteq> None) (map (hydrate_ck s) filtered2)))"

text \<open>\<open>if (!user || user.tags.length === 0) return []\<close>. The interface says \<open>tags\<close> is an
  array; on what else \<open>JSON.parse\<close> may give back, \<open>.length\<close> of \<open>null\<close> and \<open>.map\<close> of a
  string or an object throw a TypeError.\<close>

definition listJobsForUser :: "store \<Rightarrow> string \<Rightarrow> UserOpts \<Rightarrow> exn + JobRow list" where
  "listJobsForUser s userId opts =
     (case getUser s userId of
        Inl e \<Rightarrow> Inl e
      | Inr None \<Rightarrow> Inr []
      | Inr (Some user) \<Rightarrow>
        (case user_tags user of
           JNull \<Rightarrow> Inl TypeError
         | JStr t \<Rightarrow> (if length t = 0 then Inr [] else Inl TypeError)
         | JObj kvs \<Rightarrow> Inl TypeError
         | JArr ts \<Rightarrow> (if length ts = 0 then Inr [] else Inr (jobs_for_tags s ts opts))))"

section \<open>Job runs\<close>

definition LOCK_TTL_SECONDS :: nat where
  "LOCK_TTL_SECONDS = 300"

definition APPLICABLE_STATUSES :: "string option set" where
  "APPLICABLE_STATUSES = {Some ''discovered'', Some ''queued''}"

record RunArtifacts =
  resume_url :: "string option"
  cover_letter :: "string option"
  answers_a :: "(string \<times> string) list option"
  confirmation_url :: "string option"
  notes_a :: "string option"

text \<open>The object a \<open>RunArtifacts\<close> value is: its present fields.\<close>

definition artifacts_obj :: "RunArtifacts \<Rightarrow> jval" where
  "artifacts_obj a =
     JObj ((case resume_url a of None \<Rightarrow> [] | Some v \<Rightarrow> [(''resume_url'', JStr v)])
           @ (case cover_letter a of None \<Rightarrow> [] | Some v \<Rightarrow> [(''cover_letter'', JStr v)])
           @ (case answers_a a of None \<Rightarrow> []
              | Some kvs \<Rightarrow> [(''answers'', JObj (map (\<lambda>(k, v). (k, JStr v)) kvs))])
           @ (case confirmation_url a of None \<Rightarrow> []
              | Some v \<Rightarrow> [(''confirmation_url'', JStr v)])
           @ (case notes_a a of None \<Rightarrow> [] | Some v \<Rightarrow> [(''notes'', JStr v)]))"

record RunInput =
  run_id :: string
  job_id_r :: string
  board_r :: string
  variant_id :: string

text \<open>A run as the module returns it. Read back from a hash, a field the hash lacks is
  \<open>undefined\<close>; \<open>completed_at\<close> and \<open>error\<close> are \<open>null\<close> when not set, \<open>artifacts\<close> is a JSON
  value (\<open>JNull\<close> for \<open>null\<close>).\<close>

record JobRun =
  jr_run_id :: "string option"
  jr_job_id :: "string option"
  jr_board :: "string option"
  jr_variant_id :: "string option"
  jr_status :: "string option"
  jr_started_at :: "string option"
  jr_completed_at :: "string option"
  jr_error :: "string option"
  jr_artifacts :: jval

datatype run_status = Pending | Submitted | Success | Failed

fun run_status_text :: "run_status \<Rightarrow> string" where
  "run_status_text Pending = ''pending''"
| "run_status_text Submitted = ''submitted''"
| "run_status_text Success = ''success''"
| "run_status_text Failed = ''failed''"

record RunUpdate =
  status_u :: run_status
  error_u :: "string option"
  artifacts_u :: "RunArtifacts option"

text \<open>The result of \<open>createRun\<close>: \<open>{ error, code }\<close> or \<open>{ run }\<close>.\<close>

type_synonym create_result = "(string \<times> nat) + JobRun"

definition createRun ::
  "store \<Rightarrow> string \<Rightarrow> RunInput \<Rightarrow> RunArtifacts option \<Rightarrow> create_result \<times> store" where
  "createRun s now run artifacts =
     (let lockKey = K_applyLock (board_r run) (job_id_r run);
          (locked, s1) = set_ex_nx s lockKey (run_id run) LOCK_TTL_SECONDS
      in if \<not> locked
         then (Inl (''Job already has an active application in progress'', 409), s1)
         else
           (case getJob s1 (board_r run) (job_id_r run) of
              None \<Rightarrow> (Inl (''Job not found'', 404), del s1 lockKey)
            | Some job \<Rightarrow>
              if fld (row job) ''status'' \<notin> APPLICABLE_STATUSES
              then (Inl (''Job is in '' @ [CHR 0x27] @ str (fld (row job) ''status'') @ [CHR 0x27]
                           @ '' status '' @ [CHR 0xE2, CHR 0x80, CHR 0x94]
                           @ '' only discovered/queued jobs can be applied to'', 400),
                    del s1 lockKey)
              else
                let arts = (case artifacts of None \<Rightarrow> JNull | Some a \<Rightarrow> artifacts_obj a);
                    full = \<lparr>jr_run_id = Some (run_id run), jr_job_id = Some (job_id_r run),
                            jr_board = Some (board_r run),
                            jr_variant_id = Some (variant_id run),
                            jr_status = Some ''pending'', jr_started_at = Some now,
                            jr_completed_at = None, jr_error = None, jr_artifacts = arts\<rparr>;
                    pipe = [HSet (K_run (run_id run))
                              [(''run_id'', Txt (run_id run)), (''job_id'', Txt (job_id_r run)),
                               (''board'', Txt (board_r run)),
                               (''variant_id'', Txt (variant_id run)),
                               (''status'', Txt ''pending''), (''started_at'', Txt now),
                               (''completed_at'', Txt []), (''error'', Txt []),
                               (''artifacts'', Jsn arts)],
                            SAdd (K_jobRunsIdx (job_id_r run)) (run_id run),
                            SAdd K_runsAll (run_id run)];
                    s2 = execPipe s1 pipe;
                    s3 = (if fld (row job) ''status'' = Some ''discovered''
                          then snd (updateJobStatus s2 now (board_r run) (job_id_r run) Queued)
                          else s2)
                in (Inr full, s3)))"

definition parseRunHash :: "hash \<Rightarrow> exn + JobRun option" where
  "parseRunHash data =
     (if \<not> truthy (fld data ''run_id'') then Inr None
      else
        (case (if truthy (fld data ''artifacts'') then parse_field (map_of data ''artifacts'') JNull
               else Inr JNull) of
           Inl e \<Rightarrow> Inl e
         | Inr arts \<Rightarrow>
           Inr (Some \<lparr>jr_run_id = fld data ''run_id'', jr_job_id = fld data ''job_id'',
                      jr_board = fld data ''board'', jr_variant_id = fld data ''variant_id'',
                      jr_status = fld data ''status'', jr_started_at = fld data ''started_at'',
                      jr_completed_at = (if truthy (fld data ''completed_at'')
                                         then fld data ''completed_at'' else None),
                      jr_error = (if truthy (fld data ''error'') then fld data ''error''
                                  else None),
                      jr_artifacts = arts\<rparr>)))"

definition listRuns :: "store \<Rightarrow> string option \<Rightarrow> exn + JobRun list" where
  "listRuns s jobId =
     (let runIds = (if truthy jobId then smembers s (K_jobRunsIdx (str jobId))
                    else smembers s K_runsAll)
      in case collect (map (\<lambda>rid. parseRunHash (hgetall s (K_run rid))) runIds) of
           Inl e \<Rightarrow> Inl e
         | Inr runs \<Rightarrow> Inr (map the (filter (\<lambda>r. r \<noteq> None) runs)))"

text \<open>The fields \<open>updateRun\<close> writes, or the exception the artifact merge throws.\<close>

definition update_fields :: "hash \<Rightarrow> string \<Rightarrow> RunUpdate \<Rightarrow> exn + hash" where
  "update_fields data now update =
     (let fields0 = [(''status'', Txt (run_status_text (status_u update)))]
                    @ (if status_u update = Success \<or> status_u update = Failed
                       then [(''completed_at'', Txt now)] else [])
                    @ (if truthy (error_u update) then [(''error'', Txt (str (error_u update)))]
                       else [])
      in case artifacts_u update of
           None \<Rightarrow> Inr fields0
         | Some ua \<Rightarrow>
           (case (if truthy (fld data ''artifacts'')
                  then parse_field (map_of data ''artifacts'') (JObj [])
                  else Inr (JObj [])) of
              Inl e \<Rightarrow> Inl e
            | Inr existing \<Rightarrow>
              let merged = spread existing (artifacts_obj ua)
              in (case answers_a ua of
                    None \<Rightarrow> Inr (fields0 @ [(''artifacts'', Jsn (JObj merged))])
                  | Some kvs \<Rightarrow>
                    (case answers_of existing of
                       Inl e \<Rightarrow> Inl e
                     | Inr ea \<Rightarrow>
                       if truthy_j ea
                       then Inr (fields0 @
                              [(''artifacts'',
                                Jsn (JObj (AList.update ''answers''
                                  (JObj (spread (the ea) (JObj (map (\<lambda>(k, v). (k, JStr v)) kvs))))
                                  merged)))])
                       else Inr (fields0 @ [(''artifacts'', Jsn (JObj merged))])))))"

definition hasActiveRun :: "JobRun list \<Rightarrow> string \<Rightarrow> bool" where
  "hasActiveRun siblingRuns runId =
     (\<exists>sr \<in> set siblingRuns.
        jr_run_id sr \<noteq> Some runId
        \<and> (jr_status sr = Some ''pending'' \<or> jr_status sr = Some ''submitted''))"

definition updateRun ::
  "store \<Rightarrow> string \<Rightarrow> string \<Rightarrow> RunUpdate \<Rightarrow> (exn + JobRun option) \<times> store" where
  "updateRun s now runId update =
     (let key = K_run runId;
          data = hgetall s key
      in if \<not> truthy (fld data ''run_id'') then (Inr None, s)
         else
           (case update_fields data now update of
              Inl e \<Rightarrow> (Inl e, s)
            | Inr fvs \<Rightarrow>
              let s1 = hset s key fvs;
                  b = str (fld data ''board'');
                  jobId = str (fld data ''job_id'');
                  lockKey = K_applyLock b jobId
              in if status_u update = Success then
                   (let s2 = snd (updateJobStatus s1 now b jobId Applied);
                        s3 = del s2 lockKey
                    in (parseRunHash (hgetall s3 key), s3))
                 else if status_u update = Failed then
                   (case listRuns s1 (fld data ''job_id'') of
                      Inl e \<Rightarrow> (Inl e, s1)
                    | Inr siblingRuns \<Rightarrow>
                      let s2 = (if \<not> hasActiveRun siblingRuns runId
                                then snd (updateJobStatus s1 now b jobId Discovered) else s1);
                          s3 = del s2 lockKey
                      in (parseRunHash (hgetall s3 key), s3))
                 else (parseRunHash (hgetall s1 key), s1)))"

section \<open>A worked scenario\<close>

text \<open>The scenario of the specification: job 42 of board \<open>ramp\<close> is added, claimed by run
  \<open>r1\<close>, and the run is reported.\<close>

definition demo_job :: JobInput where
  "demo_job = \<lparr>job_id = ''42'', board = ''ramp'', title = ''Quant Trader'', url = [],
                location = [], department = ''Trading''\<rparr>"

definition demo_run :: "string \<Rightarrow> RunInput" where
  "demo_run rid = \<lparr>run_id = rid, job_id_r = ''42'', board_r = ''ramp'', variant_id = ''v1''\<rparr>"

definition st_added :: store where
  "st_added = snd (addJob empty_store ''t0'' demo_job)"

definition st_claimed :: store where
  "st_claimed = snd (createRun st_added ''t1'' (demo_run ''r1'') None)"

definition st_applied :: store where
  "st_applied = snd (updateRun st_claimed ''t2'' ''r1''
                       \<lparr>status_u = Success, error_u = None, artifacts_u = None\<rparr>)"

text \<open>The claimed store 300 seconds later: the lock of run \<open>r1\<close> has expired.\<close>

definition st_lapsed :: store where
  "st_lapsed = st_claimed\<lparr>clock := 300\<rparr>"

definition st_user :: store where
  "st_user = snd (upsertUser empty_store ''t0'' ''u1'' [''cv.pdf''] [] [])"

text \<open>Run \<open>r1\<close> created with a resume, then updated three times with further artifacts.\<close>

definition art_resume :: RunArtifacts where
  "art_resume = \<lparr>resume_url = Some ''a'', cover_letter = None, answers_a = None,
                  confirmation_url = None, notes_a = None\<rparr>"

definition art_notes :: RunArtifacts where
  "art_notes = \<lparr>resume_url = None, cover_letter = None, answers_a = None,
                 confirmation_url = None, notes_a = Some ''b''\<rparr>"

definition art_answers :: "(string \<times> string) list \<Rightarrow> RunArtifacts" where
  "art_answers kvs = \<lparr>resume_url = None, cover_letter = None, answers_a = Some kvs,
                       confirmation_url = None, notes_a = None\<rparr>"

definition with_artifacts :: "RunArtifacts \<Rightarrow> RunUpdate" where
  "with_artifacts a = \<lparr>status_u = Submitted, error_u = None, artifacts_u = Some a\<rparr>"

definition st_art0 :: store where
  "st_art0 = snd (createRun st_added ''t1'' (demo_run ''r1'') (Some art_resume))"

definition st_art1 :: store where
  "st_art1 = snd (updateRun st_art0 ''t2'' ''r1'' (with_artifacts art_notes))"

definition st_art2 :: store where
  "st_art2 = snd (updateRun st_art1 ''t3'' ''r1'' (with_artifacts (art_answers [(''x'', ''1'')])))"

definition st_art3 :: store where
  "st_art3 = snd (updateRun st_art2 ''t4'' ''r1'' (with_artifacts (art_answers [(''y'', ''2'')])))"

text \<open>A status report for a run, and the store in which run \<open>r2\<close> has claimed the job
  after the lock of \<open>r1\<close> expired.\<close>

definition report :: "run_status \<Rightarrow> RunUpdate" where
  "report st = \<lparr>status_u = st, error_u = None, artifacts_u = None\<rparr>"

definition st_two :: store where
  "st_two = snd (createRun st_lapsed ''t9'' (demo_run ''r2'') None)"

text \<open>The job of the scenario claimed, on a board that is registered.\<close>

definition st_board :: store where
  "st_board = snd (addBoard st_claimed ''t1'' ''ramp'' ''Ramp'' ''ashby'')"

text \<open>The whole pipeline \<open>removeBoard\<close> sends for a board that exists.\<close>

definition removal_pipe :: "store \<Rightarrow> string \<Rightarrow> cmd list" where
  "removal_pipe s bid = concat (map (board_job_removal s bid) (smembers s (K_boardJobsIdx bid)))
       @ [Del (K_boardJobsIdx bid), Del (K_board bid), SRem K_boardsIdx bid]"

text \<open>A bulk add that names job 42 again, under another title, and the new job 43.\<close>

definition job43 :: JobInput where
  "job43 = \<lparr>job_id = ''43'', board = ''ramp'', title = ''Data Engineer'', url = [],
             location = [], department = ''Platform''\<rparr>"

definition bulk_jobs :: "JobInput list" where
  "bulk_jobs = [demo_job\<lparr>title := ''Research Intern''\<rparr>, job43]"

text \<open>A second board with a job of the same id, claimed by run \<open>r2\<close>.\<close>

definition demo_job_stripe :: JobInput where
  "demo_job_stripe = demo_job\<lparr>board := ''stripe''\<rparr>"

definition run_stripe :: RunInput where
  "run_stripe = \<lparr>run_id = ''r2'', job_id_r = ''42'', board_r = ''stripe'', variant_id = ''v1''\<rparr>"

definition st_cross :: store where
  "st_cross = snd (createRun (snd (addJob st_claimed ''t2'' demo_job_stripe)) ''t3'' run_stripe None)"

text \<open>Job 42 added a second time after it was applied, on a registered board.\<close>

definition st_stale :: store where
  "st_stale = snd (addBoard (snd (addJob st_applied ''t5'' demo_job)) ''t6'' ''ramp'' ''Ramp'' ''ashby'')"

section \<open>Basic facts about the commands\<close>

lemmas K_defs = K_board_def K_boardsIdx_def K_job_def K_boardJobsIdx_def K_jobStatusIdx_def
  K_tagIdx_def K_run_def K_jobRunsIdx_def K_runsAll_def K_applyLock_def K_user_def K_usersIdx_def

lemma strs_hset [simp]: "strs (hset s k fvs) = strs s"
  by (simp add: hset_def)

lemma strs_sadd [simp]: "strs (sadd s k m) = strs s"
  by (simp add: sadd_def)

lemma strs_srem [simp]: "strs (srem s k m) = strs s"
  by (simp add: srem_def)

lemma clock_hset [simp]: "clock (hset s k fvs) = clock s"
  by (simp add: hset_def)

lemma clock_sadd [simp]: "clock (sadd s k m) = clock s"
  by (simp add: sadd_def)

lemma clock_srem [simp]: "clock (srem s k m) = clock s"
  by (simp add: srem_def)

lemma clock_del [simp]: "clock (del s k) = clock s"
  by (simp add: del_def)

lemma execPipe_Nil [simp]: "execPipe s [] = s"
  by (simp add: execPipe_def)

lemma execPipe_Cons [simp]: "execPipe s (c # cs) = execPipe (exec_cmd s c) cs"
  by (simp add: execPipe_def)

lemma execPipe_append: "execPipe s (xs @ ys) = execPipe (execPipe s xs) ys"
  by (simp add: execPipe_def)

lemma strs_updateJobStatus [simp]: "strs (snd (updateJobStatus s now b j st)) = strs s"
  by (simp add: updateJobStatus_def Let_def)

lemma not_isl_Inr: "\<not> isl x \<Longrightarrow> \<exists>r. x = Inr r"
  by (cases x) auto

lemma map_of_foldl_update:
  "map_of (foldl (\<lambda>h (f, v). AList.update f v h) h fvs) = map_of h ++ map_of (rev fvs)"
proof (induction fvs arbitrary: h)
  case Nil
  show ?case by simp
next
  case (Cons p fvs)
  obtain f v where p: "p = (f, v)" by (cases p)
  show ?case
    by (simp add: p Cons.IH update_conv' map_add_upd_left fun_eq_iff map_add_def split: option.splits)
qed

lemma hashes_hset:
  "hashes (hset s k fvs) k' =
     (if k' = k then foldl (\<lambda>h (f, v). AList.update f v h) (hashes s k) fvs else hashes s k')"
  by (simp add: hset_def)

lemma fld_hset:
  "fld (hashes (hset s k fvs) k') f =
     (if k' = k then (case map_of (rev fvs) f of None \<Rightarrow> fld (hashes s k) f
                      | Some v \<Rightarrow> Some (text_of v))
      else fld (hashes s k') f)"
  by (simp add: hset_def fld_def map_of_foldl_update map_add_def split: option.splits)

lemma fld_update [simp]:
  "fld (AList.update k v h) f = (if f = k then Some (text_of v) else fld h f)"
  by (simp add: fld_def update_conv')

lemma sets_hset [simp]: "sets (hset s k fvs) = sets s"
  by (simp add: hset_def)

lemma hashes_sadd [simp]: "hashes (sadd s k m) = hashes s"
  by (simp add: sadd_def)

lemma hashes_srem [simp]: "hashes (srem s k m) = hashes s"
  by (simp add: srem_def)

lemma set_sets_sadd:
  "set (sets (sadd s k m) k') = (if k' = k then insert m (set (sets s k)) else set (sets s k'))"
  by (auto simp add: sadd_def)

lemma sets_sadd_other: "k' \<noteq> k \<Longrightarrow> sets (sadd s k m) k' = sets s k'"
  by (simp add: sadd_def)

lemma set_sets_srem:
  "set (sets (srem s k m) k') = (if k' = k then set (sets s k) - {m} else set (sets s k'))"
  by (auto simp add: srem_def)

lemma sets_srem_other: "k' \<noteq> k \<Longrightarrow> sets (srem s k m) k' = sets s k'"
  by (simp add: srem_def)

lemma hashes_del: "hashes (del s k) k' = (if k' = k then [] else hashes s k')"
  by (simp add: del_def)

lemma sets_del: "sets (del s k) k' = (if k' = k then [] else sets s k')"
  by (simp add: del_def)

lemma getJob_Some_truthy:
  "getJob s b j = Some job \<Longrightarrow> truthy (fld (hashes s (K_job b j)) ''job_id'') \<and> row job = hashes s (K_job b j)"
  by (auto simp add: getJob_def hgetall_def Let_def split: if_splits)

lemma del_set_lock [simp]: "del (s\<lparr>strs := (strs s)(k \<mapsto> v)\<rparr>) k = del s k"
  by (simp add: del_def)

lemma strs_del_same [simp]: "strs (del s k) k = None"
  by (simp add: del_def)

lemma getJob_set_lock [simp]:
  "getJob (s\<lparr>strs := x\<rparr>) b j = getJob s b j"
  by (simp add: getJob_def hgetall_def)

lemma key_neq [simp]:
  "K_run r \<noteq> K_job b j" "K_job b j \<noteq> K_run r"
  "K_applyLock b j \<noteq> K_job b' j'" "K_job b' j' \<noteq> K_applyLock b j"
  "K_applyLock b j \<noteq> K_run r" "K_run r \<noteq> K_applyLock b j"
  "K_applyLock b j \<noteq> K_jobStatusIdx st" "K_jobStatusIdx st \<noteq> K_applyLock b j"
  "K_applyLock b j \<noteq> K_tagIdx t" "K_tagIdx t \<noteq> K_applyLock b j"
  "K_applyLock b j \<noteq> K_jobRunsIdx j'" "K_jobRunsIdx j' \<noteq> K_applyLock b j"
  "K_applyLock b j \<noteq> K_runsAll" "K_runsAll \<noteq> K_applyLock b j"
  "K_applyLock b j \<noteq> K_boardJobsIdx b'" "K_boardJobsIdx b' \<noteq> K_applyLock b j"
  "K_jobRunsIdx j \<noteq> K_jobStatusIdx st" "K_jobStatusIdx st \<noteq> K_jobRunsIdx j"
  "K_runsAll \<noteq> K_jobStatusIdx st" "K_jobStatusIdx st \<noteq> K_runsAll"
  "K_boardJobsIdx b \<noteq> K_jobStatusIdx st" "K_jobStatusIdx st \<noteq> K_boardJobsIdx b"
  "K_tagIdx t \<noteq> K_jobStatusIdx st" "K_jobStatusIdx st \<noteq> K_tagIdx t"
  "K_boardJobsIdx b \<noteq> K_tagIdx t" "K_tagIdx t \<noteq> K_boardJobsIdx b"
  "K_jobRunsIdx j \<noteq> K_tagIdx t" "K_tagIdx t \<noteq> K_jobRunsIdx j"
  "K_runsAll \<noteq> K_tagIdx t" "K_tagIdx t \<noteq> K_runsAll"
  "K_runsAll \<noteq> K_jobRunsIdx j" "K_jobRunsIdx j \<noteq> K_runsAll"
  "K_boardsIdx \<noteq> K_jobStatusIdx st" "K_jobStatusIdx st \<noteq> K_boardsIdx"
  "K_boardsIdx \<noteq> K_tagIdx t" "K_tagIdx t \<noteq> K_boardsIdx"
  "K_boardsIdx \<noteq> K_boardJobsIdx b" "K_boardJobsIdx b \<noteq> K_boardsIdx"
  "K_board b \<noteq> K_job b' j" "K_job b' j \<noteq> K_board b"
  "K_board b \<noteq> K_run r" "K_run r \<noteq> K_board b"
  "K_board b \<noteq> K_applyLock b' j" "K_applyLock b' j \<noteq> K_board b"
  by (simp_all add: K_defs)

lemma K_jobStatusIdx_inj [simp]: "(K_jobStatusIdx a = K_jobStatusIdx b) = (a = b)"
  by (simp add: K_defs)

lemma updateJobStatus_ok:
  assumes "truthy (fld (hashes s (K_job b j)) ''job_id'')"
  shows "snd (updateJobStatus s now b j st) =
     sadd ((if truthy (fld (hashes s (K_job b j)) ''status'')
            then srem (hset s (K_job b j) [(''status'', Txt (job_status_text st)), (''updated_at'', Txt now)])
                   (K_jobStatusIdx (str (fld (hashes s (K_job b j)) ''status''))) (ck_of b j)
            else hset s (K_job b j) [(''status'', Txt (job_status_text st)), (''updated_at'', Txt now)]))
       (K_jobStatusIdx (job_status_text st)) (ck_of b j)"
  using assms by (simp add: updateJobStatus_def hgetall_def Let_def)

lemma hashes_updateJobStatus_other:
  "k \<noteq> K_job b j \<Longrightarrow> hashes (snd (updateJobStatus s now b j st)) k = hashes s k"
  by (simp add: updateJobStatus_def Let_def hashes_hset)

section \<open>The stores of the scenario, written out\<close>

lemma demo_tags: "extractTags ''Quant Trader'' ''Trading'' = [''quant'']"
  by code_simp

lemmas eval_defs = createRun_def set_ex_nx_def exists_key_def live_def getJob_def
  hgetall_def smembers_def fld_def APPLICABLE_STATUSES_def LOCK_TTL_SECONDS_def Let_def
  updateJobStatus_def hset_def sadd_def srem_def del_def K_defs ck_of_def addJob_def
  add_job_cmds_def full_job_def split_tags_def empty_store_def demo_job_def demo_run_def

lemma st_added_eq [code]:
  "st_added =
     \<lparr>hashes =
        (\<lambda>_. [])
        (''job:ramp:42'' :=
           [(''job_id'', Txt ''42''), (''board'', Txt ''ramp''),
            (''title'', Txt ''Quant Trader''), (''url'', Txt []),
            (''location'', Txt []), (''department'', Txt ''Trading''),
            (''tags'', Txt ''quant''), (''status'', Txt ''discovered''),
            (''discovered_at'', Txt ''t0''), (''updated_at'', Txt ''t0'')]),
        sets =
          (\<lambda>_. [])
          (''idx:board_jobs:ramp'' := [''42''],
             ''idx:job_status:discovered'' := [''ramp:42''],
             ''idx:tag:quant'' := [''ramp:42'']),
        strs = \<lambda>_. None, clock = 0\<rparr>"
  by (simp add: st_added_def eval_defs demo_tags)

lemma st_claimed_eq [code]:
  "st_claimed =
     \<lparr>hashes =
        (\<lambda>_. [])
        (''run:r1'' :=
           [(''run_id'', Txt ''r1''), (''job_id'', Txt ''42''),
            (''board'', Txt ''ramp''), (''variant_id'', Txt ''v1''),
            (''status'', Txt ''pending''), (''started_at'', Txt ''t1''),
            (''completed_at'', Txt []), (''error'', Txt []),
            (''artifacts'', Jsn JNull)],
           ''job:ramp:42'' :=
             [(''job_id'', Txt ''42''), (''board'', Txt ''ramp''),
              (''title'', Txt ''Quant Trader''), (''url'', Txt []),
              (''location'', Txt []), (''department'', Txt ''Trading''),
              (''tags'', Txt ''quant''), (''status'', Txt ''queued''),
              (''discovered_at'', Txt ''t0''),
              (''updated_at'', Txt ''t1'')]),
        sets =
          (\<lambda>_. [])
          (''idx:board_jobs:ramp'' := [''42''],
             ''idx:tag:quant'' := [''ramp:42''],
             ''idx:job_runs:42'' := [''r1''], ''idx:runs'' := [''r1''],
             ''idx:job_status:discovered'' := [],
             ''idx:job_status:queued'' := [''ramp:42'']),
        strs = [''lock:apply:ramp:42'' \<mapsto> (''r1'', 300)], clock = 0\<rparr>"
  unfolding st_claimed_def st_added_eq
  by (simp add: eval_defs)

section \<open>The apply lock\<close>

lemma createRun_conflict:
  assumes "live s (K_applyLock (board_r run) (job_id_r run))"
  shows "createRun s now run arts
         = (Inl (''Job already has an active application in progress'', 409), s)"
  using assms by (simp add: createRun_def set_ex_nx_def exists_key_def)

lemma createRun_success_lock:
  assumes "createRun s now run arts = (Inr r, s')"
  shows "strs s' (K_applyLock (board_r run) (job_id_r run))
         = Some (run_id run, clock s + LOCK_TTL_SECONDS)"
  using assms
  by (auto simp add: createRun_def set_ex_nx_def Let_def split: if_splits option.splits)

text \<open>
  Claim C1 (mutual exclusion of the apply lock). Let \<open>createRun\<close> succeed for a job at a
  store whose clock reads \<open>clock s\<close>. In any later store \<open>s2\<close> where the lock entry of that
  \<open>(board, job_id)\<close> is still the one that call left (it was not released) and fewer than
  300 seconds have passed (it has not expired), every \<open>createRun\<close> for the same
  \<open>(board, job_id)\<close> returns the conflict result, code 409, and leaves the store as it is:
  the answer comes from the conditional set alone, whatever the job's state.
\<close>

theorem createRun_mutual_exclusion:
  assumes "createRun s now run arts = (Inr r, s')"
    and "strs s2 (K_applyLock (board_r run) (job_id_r run))
         = strs s' (K_applyLock (board_r run) (job_id_r run))"
    and "clock s2 < clock s + LOCK_TTL_SECONDS"
    and "board_r run2 = board_r run" and "job_id_r run2 = job_id_r run"
  shows "createRun s2 now2 run2 arts2
         = (Inl (''Job already has an active application in progress'', 409), s2)"
proof -
  have "strs s2 (K_applyLock (board_r run2) (job_id_r run2))
        = Some (run_id run, clock s + LOCK_TTL_SECONDS)"
    using createRun_success_lock [OF assms(1)] assms(2,4,5) by simp
  then have "live s2 (K_applyLock (board_r run2) (job_id_r run2))"
    using assms(3) by (simp add: live_def)
  then show ?thesis by (rule createRun_conflict)
qed

theorem createRun_mutual_exclusion_witness:
  "createRun st_claimed ''t2'' (demo_run ''r2'') None
   = (Inl (''Job already has an active application in progress'', 409), st_claimed)"
proof -
  have "\<not> isl (fst (createRun st_added ''t1'' (demo_run ''r1'') None))"
    by code_simp
  then obtain r where "fst (createRun st_added ''t1'' (demo_run ''r1'') None) = Inr r"
    using not_isl_Inr by blast
  then have h1: "createRun st_added ''t1'' (demo_run ''r1'') None = (Inr r, st_claimed)"
    by (simp add: st_claimed_def prod_eq_iff)
  have h3: "clock st_claimed < clock st_added + LOCK_TTL_SECONDS"
    by code_simp
  have h4: "board_r (demo_run ''r2'') = board_r (demo_run ''r1'')"
    by (simp add: demo_run_def)
  have h5: "job_id_r (demo_run ''r2'') = job_id_r (demo_run ''r1'')"
    by (simp add: demo_run_def)
  show ?thesis
    by (rule createRun_mutual_exclusion [OF h1 refl h3 h4 h5])
qed

text \<open>
  Claim C2 (the three rejections of \<open>createRun\<close>). If the lock key exists the result is the
  conflict, code 409, and the store is untouched. If the lock is acquired and \<open>getJob\<close>
  finds no job, the result is \<open>Job not found\<close>, code 404. If the lock is acquired and the
  job's status is neither \<open>discovered\<close> nor \<open>queued\<close>, the result carries code 400. In
  the last two cases the store returned is the one with the lock key deleted, so the key
  holds nothing afterwards. The three codes differ.
\<close>

theorem createRun_rejections:
  "(exists_key s (K_applyLock (board_r run) (job_id_r run)) \<longrightarrow>
      createRun s now run arts
      = (Inl (''Job already has an active application in progress'', 409), s))
   \<and> (\<not> exists_key s (K_applyLock (board_r run) (job_id_r run))
        \<and> getJob s (board_r run) (job_id_r run) = None \<longrightarrow>
      createRun s now run arts
      = (Inl (''Job not found'', 404), del s (K_applyLock (board_r run) (job_id_r run)))
      \<and> strs (snd (createRun s now run arts)) (K_applyLock (board_r run) (job_id_r run)) = None)
   \<and> (\<not> exists_key s (K_applyLock (board_r run) (job_id_r run))
        \<and> getJob s (board_r run) (job_id_r run) = Some job
        \<and> fld (row job) ''status'' \<noteq> Some ''discovered''
        \<and> fld (row job) ''status'' \<noteq> Some ''queued'' \<longrightarrow>
      (\<exists>msg. createRun s now run arts
             = (Inl (msg, 400), del s (K_applyLock (board_r run) (job_id_r run))))
      \<and> strs (snd (createRun s now run arts)) (K_applyLock (board_r run) (job_id_r run)) = None)"
  by (simp add: createRun_def set_ex_nx_def APPLICABLE_STATUSES_def)

theorem createRun_rejections_witness:
  "createRun st_claimed ''t2'' (demo_run ''r2'') None
     = (Inl (''Job already has an active application in progress'', 409), st_claimed)
   \<and> createRun empty_store ''t2'' (demo_run ''r2'') None
     = (Inl (''Job not found'', 404), del empty_store (K_applyLock ''ramp'' ''42''))
   \<and> (\<exists>msg. createRun st_applied ''t3'' (demo_run ''r3'') None
            = (Inl (msg, 400), del st_applied (K_applyLock ''ramp'' ''42'')))"
proof -
  have a: "exists_key st_claimed (K_applyLock (board_r (demo_run ''r2'')) (job_id_r (demo_run ''r2'')))"
    by code_simp
  have b: "\<not> exists_key empty_store (K_applyLock (board_r (demo_run ''r2'')) (job_id_r (demo_run ''r2'')))"
    "getJob empty_store (board_r (demo_run ''r2'')) (job_id_r (demo_run ''r2'')) = None"
    by code_simp+
  have c: "\<not> exists_key st_applied (K_applyLock (board_r (demo_run ''r3'')) (job_id_r (demo_run ''r3'')))"
    by code_simp
  have "getJob st_applied (board_r (demo_run ''r3'')) (job_id_r (demo_run ''r3'')) \<noteq> None"
    by code_simp
  then obtain job where d: "getJob st_applied (board_r (demo_run ''r3'')) (job_id_r (demo_run ''r3'')) = Some job"
    by blast
  have "fld (row (the (getJob st_applied (board_r (demo_run ''r3'')) (job_id_r (demo_run ''r3''))))) ''status'' = Some ''applied''"
    by code_simp
  then have e: "fld (row job) ''status'' \<noteq> Some ''discovered''" "fld (row job) ''status'' \<noteq> Some ''queued''"
    using d by simp_all
  show ?thesis
    using createRun_rejections [where s = st_claimed and run = "demo_run ''r2''" and now = "''t2''" and arts = None]
      createRun_rejections [where s = empty_store and run = "demo_run ''r2''" and now = "''t2''" and arts = None]
      createRun_rejections [where s = st_applied and run = "demo_run ''r3''" and job = job and now = "''t3''" and arts = None]
      a b c d e
    by (simp add: demo_run_def)
qed

section \<open>Creating a run\<close>

lemma createRun_ok:
  assumes "\<not> exists_key s (K_applyLock (board_r run) (job_id_r run))"
    and "getJob s (board_r run) (job_id_r run) = Some job"
    and "fld (row job) ''status'' = Some ''discovered'' \<or> fld (row job) ''status'' = Some ''queued''"
  shows "createRun s now run arts =
    (let arts' = (case arts of None \<Rightarrow> JNull | Some a \<Rightarrow> artifacts_obj a);
         s1 = s\<lparr>strs := (strs s)(K_applyLock (board_r run) (job_id_r run)
                      \<mapsto> (run_id run, clock s + LOCK_TTL_SECONDS))\<rparr>;
         s2 = sadd (sadd (hset s1 (K_run (run_id run))
                [(''run_id'', Txt (run_id run)), (''job_id'', Txt (job_id_r run)),
                 (''board'', Txt (board_r run)), (''variant_id'', Txt (variant_id run)),
                 (''status'', Txt ''pending''), (''started_at'', Txt now),
                 (''completed_at'', Txt []), (''error'', Txt []), (''artifacts'', Jsn arts')])
                (K_jobRunsIdx (job_id_r run)) (run_id run)) K_runsAll (run_id run)
     in (Inr \<lparr>jr_run_id = Some (run_id run), jr_job_id = Some (job_id_r run),
               jr_board = Some (board_r run), jr_variant_id = Some (variant_id run),
               jr_status = Some ''pending'', jr_started_at = Some now,
               jr_completed_at = None, jr_error = None, jr_artifacts = arts'\<rparr>,
         if fld (row job) ''status'' = Some ''discovered''
         then snd (updateJobStatus s2 now (board_r run) (job_id_r run) Queued) else s2))"
  using assms
  by (auto simp add: createRun_def set_ex_nx_def APPLICABLE_STATUSES_def Let_def)

text \<open>
  Claim C4 (what a successful \<open>createRun\<close> leaves). When the lock is acquired, the job
  exists and its status is \<open>discovered\<close> or \<open>queued\<close>, \<open>createRun\<close> returns a run of status
  \<open>pending\<close> started at the given time; the run's hash holds that status and start time; the
  run id is in the job's run index and in the index of all runs. A \<open>discovered\<close> job is then
  \<open>queued\<close>, its composite key moved from the \<open>discovered\<close> status index to the \<open>queued\<close>
  one; a job already \<open>queued\<close> keeps its hash, and no status index changes.
\<close>

theorem createRun_success:
  assumes "\<not> exists_key s (K_applyLock (board_r run) (job_id_r run))"
    and "getJob s (board_r run) (job_id_r run) = Some job"
    and "fld (row job) ''status'' = Some ''discovered'' \<or> fld (row job) ''status'' = Some ''queued''"
  shows "\<exists>full s'. createRun s now run arts = (Inr full, s')
      \<and> jr_status full = Some ''pending'' \<and> jr_started_at full = Some now
      \<and> fld (hgetall s' (K_run (run_id run))) ''status'' = Some ''pending''
      \<and> fld (hgetall s' (K_run (run_id run))) ''started_at'' = Some now
      \<and> run_id run \<in> set (smembers s' (K_jobRunsIdx (job_id_r run)))
      \<and> run_id run \<in> set (smembers s' K_runsAll)
      \<and> (fld (row job) ''status'' = Some ''discovered'' \<longrightarrow>
           fld (hgetall s' (K_job (board_r run) (job_id_r run))) ''status'' = Some ''queued''
           \<and> ck_of (board_r run) (job_id_r run) \<in> set (smembers s' (K_jobStatusIdx ''queued''))
           \<and> ck_of (board_r run) (job_id_r run) \<notin> set (smembers s' (K_jobStatusIdx ''discovered'')))
      \<and> (fld (row job) ''status'' = Some ''queued'' \<longrightarrow>
           hgetall s' (K_job (board_r run) (job_id_r run)) = hgetall s (K_job (board_r run) (job_id_r run))
           \<and> (\<forall>st. smembers s' (K_jobStatusIdx st) = smembers s (K_jobStatusIdx st)))"
proof -
  note j = getJob_Some_truthy [OF assms(2)]
  show ?thesis
  proof (cases "fld (row job) ''status'' = Some ''discovered''")
    case True
    then show ?thesis
      using j
      by (simp add: createRun_ok [OF assms] Let_def updateJobStatus_ok
          hgetall_def smembers_def fld_hset hashes_hset set_sets_sadd set_sets_srem)
  next
    case False
    then have q: "fld (row job) ''status'' = Some ''queued''" using assms(3) by simp
    then show ?thesis
      using j
      by (simp add: createRun_ok [OF assms] Let_def
          hgetall_def smembers_def fld_hset hashes_hset set_sets_sadd sets_sadd_other)
  qed
qed

theorem createRun_success_witness:
  "(\<exists>full s'. createRun st_added ''t1'' (demo_run ''r1'') None = (Inr full, s')
       \<and> jr_status full = Some ''pending''
       \<and> fld (hgetall s' (K_run ''r1'')) ''status'' = Some ''pending''
       \<and> fld (hgetall s' (K_job ''ramp'' ''42'')) ''status'' = Some ''queued'')
   \<and> (\<exists>full s'. createRun st_lapsed ''t9'' (demo_run ''r2'') None = (Inr full, s')
       \<and> jr_status full = Some ''pending''
       \<and> hgetall s' (K_job ''ramp'' ''42'') = hgetall st_lapsed (K_job ''ramp'' ''42''))"
proof -
  have a1: "\<not> exists_key st_added (K_applyLock (board_r (demo_run ''r1'')) (job_id_r (demo_run ''r1'')))"
    by code_simp
  have "getJob st_added (board_r (demo_run ''r1'')) (job_id_r (demo_run ''r1'')) \<noteq> None"
    by code_simp
  then obtain job1 where a2: "getJob st_added (board_r (demo_run ''r1'')) (job_id_r (demo_run ''r1'')) = Some job1"
    by blast
  have "fld (row (the (getJob st_added (board_r (demo_run ''r1'')) (job_id_r (demo_run ''r1''))))) ''status'' = Some ''discovered''"
    by code_simp
  then have a3: "fld (row job1) ''status'' = Some ''discovered''"
    using a2 by simp
  have b1: "\<not> exists_key st_lapsed (K_applyLock (board_r (demo_run ''r2'')) (job_id_r (demo_run ''r2'')))"
    by code_simp
  have "getJob st_lapsed (board_r (demo_run ''r2'')) (job_id_r (demo_run ''r2'')) \<noteq> None"
    by code_simp
  then obtain job2 where b2: "getJob st_lapsed (board_r (demo_run ''r2'')) (job_id_r (demo_run ''r2'')) = Some job2"
    by blast
  have "fld (row (the (getJob st_lapsed (board_r (demo_run ''r2'')) (job_id_r (demo_run ''r2''))))) ''status'' = Some ''queued''"
    by code_simp
  then have b3: "fld (row job2) ''status'' = Some ''queued''"
    using b2 by simp
  have a3': "fld (row job1) ''status'' = Some ''discovered'' \<or> fld (row job1) ''status'' = Some ''queued''"
    using a3 by simp
  have b3': "fld (row job2) ''status'' = Some ''discovered'' \<or> fld (row job2) ''status'' = Some ''queued''"
    using b3 by simp
  show ?thesis
    using createRun_success [OF a1 a2 a3', of "''t1''" None]
      createRun_success [OF b1 b2 b3', of "''t9''" None] a3 b3
    by (simp add: demo_run_def) blast
qed

section \<open>Jobs for a user\<close>

text \<open>
  Claim C10 (no interest, nothing matches). \<open>listJobsForUser\<close> returns the empty list, and
  not an error, when the user's hash is absent, when \<open>getUser\<close> finds no user, and when the
  user it finds has the empty tag list: the caller gets the same answer in each case.
\<close>

theorem listJobsForUser_empty:
  "(hgetall s (K_user uid) = [] \<longrightarrow> listJobsForUser s uid opts = Inr [])
   \<and> (getUser s uid = Inr None \<longrightarrow> listJobsForUser s uid opts = Inr [])
   \<and> (getUser s uid = Inr (Some u) \<and> user_tags u = JArr [] \<longrightarrow>
        listJobsForUser s uid opts = Inr [])"
  by (simp add: listJobsForUser_def getUser_def fld_def)

theorem listJobsForUser_empty_witness:
  "listJobsForUser st_user ''nobody'' \<lparr>uo_board = None, uo_status = None\<rparr> = Inr []
   \<and> listJobsForUser st_user ''u1'' \<lparr>uo_board = None, uo_status = None\<rparr> = Inr []"
proof -
  have a: "hgetall st_user (K_user ''nobody'') = []"
    by code_simp
  have "getUser st_user ''u1'' = Inr (Some \<lparr>user_id = ''u1'', resumes = JArr [JStr ''cv.pdf''],
           answers = JObj [], user_tags = JArr [], user_updated_at = Some ''t0''\<rparr>)"
    by code_simp
  then obtain u where b: "getUser st_user ''u1'' = Inr (Some u)" "user_tags u = JArr []"
    by simp
  show ?thesis
    using listJobsForUser_empty [of st_user "''nobody''" "\<lparr>uo_board = None, uo_status = None\<rparr>"]
      listJobsForUser_empty [of st_user "''u1''" "\<lparr>uo_board = None, uo_status = None\<rparr>" u] a b
    by simp
qed

section \<open>The fields of a run update\<close>

lemma update_fields_status:
  "update_fields data now upd = Inr fvs \<Longrightarrow>
   map_of (rev fvs) ''status'' = Some (Txt (run_status_text (status_u upd)))"
  by (auto simp add: update_fields_def Let_def split: option.splits sum.splits if_splits)

section \<open>Merging artifacts\<close>

lemma map_of_spread: "map_of (spread a b) = map_of (props a) ++ map_of (rev (props b))"
  by (simp add: spread_def map_of_foldl_update)

lemma json_text_nonempty [simp]: "json_text v \<noteq> []"
  by (cases v) simp_all

lemma distinct_artifacts_obj: "distinct (map fst (props (artifacts_obj a)))"
  by (simp add: artifacts_obj_def split: option.splits)

lemma map_of_rev_distinct: "distinct (map fst xs) \<Longrightarrow> map_of (rev xs) = map_of xs"
  by (subst map_of_inject_set) (simp_all add: rev_map [symmetric])

lemma artifacts_obj_answers:
  "map_of (props (artifacts_obj a)) ''answers''
   = map_option (\<lambda>kvs. JObj (map (\<lambda>(k, v). (k, JStr v)) kvs)) (answers_a a)"
  by (simp add: artifacts_obj_def split: option.splits)

lemma update_fields_artifacts:
  assumes "map_of data ''artifacts'' = Some (Jsn (JObj ex))"
    and "artifacts_u upd = Some ua"
  shows "\<exists>fvs m. update_fields data now upd = Inr fvs
      \<and> map_of (rev fvs) ''artifacts'' = Some (Jsn (JObj m))
      \<and> (\<forall>k. map_of m k =
            (if k = ''answers'' \<and> answers_a ua \<noteq> None \<and> truthy_j (map_of ex ''answers'')
             then Some (JObj (spread (the (map_of ex ''answers''))
                                (JObj (map (\<lambda>(k, v). (k, JStr v)) (the (answers_a ua))))))
             else (case map_of (props (artifacts_obj ua)) k of
                     Some v \<Rightarrow> Some v
                   | None \<Rightarrow> map_of ex k)))"
  using assms
  by (auto simp add: update_fields_def Let_def fld_def map_of_spread update_conv'
      map_of_rev_distinct [OF distinct_artifacts_obj] map_add_def artifacts_obj_answers
      split: option.splits)

text \<open>
  The merge where there is something to merge into. Let a run exist whose stored artifacts
  are the object \<open>ex\<close>, and let \<open>updateRun\<close> be given the artifacts \<open>ua\<close> and return.
  Then the stored artifacts are an object \<open>m\<close> in which every field of \<open>ua\<close> has the
  value \<open>ua\<close> gives it and every other field keeps the value it had in \<open>ex\<close>; except
  that, when both carry \<open>answers\<close>, the \<open>answers\<close> of \<open>m\<close> is the spread of the old
  answers and the new ones. The example after it is the scenario of the specification:
  from \<open>{resume_url: "a"}\<close>, the update \<open>{notes: "b"}\<close> gives
  \<open>{resume_url: "a", notes: "b"}\<close>, and the updates \<open>{answers: {"x": "1"}}\<close> and
  \<open>{answers: {"y": "2"}}\<close> give answers \<open>{"x": "1", "y": "2"}\<close>.
\<close>

lemma updateRun_merges_artifacts:
  assumes "truthy (fld (hgetall s (K_run rid)) ''run_id'')"
    and "map_of (hgetall s (K_run rid)) ''artifacts'' = Some (Jsn (JObj ex))"
    and "artifacts_u upd = Some ua"
    and "updateRun s now rid upd = (Inr res, s')"
  shows "\<exists>m. map_of (hgetall s' (K_run rid)) ''artifacts'' = Some (Jsn (JObj m))
      \<and> (\<forall>k. map_of m k =
            (if k = ''answers'' \<and> answers_a ua \<noteq> None \<and> truthy_j (map_of ex ''answers'')
             then Some (JObj (spread (the (map_of ex ''answers''))
                                (JObj (map (\<lambda>(k, v). (k, JStr v)) (the (answers_a ua))))))
             else (case map_of (props (artifacts_obj ua)) k of
                     Some v \<Rightarrow> Some v
                   | None \<Rightarrow> map_of ex k)))
      \<and> (\<forall>ea kvs. map_of ex ''answers'' = Some (JObj ea) \<and> answers_a ua = Some kvs
             \<and> distinct (map fst kvs) \<longrightarrow>
           (\<exists>ma. map_of m ''answers'' = Some (JObj ma)
              \<and> map_of ma = map_of ea ++ map_of (map (\<lambda>(k, v). (k, JStr v)) kvs)))"
proof -
  obtain fvs m where f: "update_fields (hgetall s (K_run rid)) now upd = Inr fvs"
    and a: "map_of (rev fvs) ''artifacts'' = Some (Jsn (JObj m))"
    and m: "\<forall>k. map_of m k =
            (if k = ''answers'' \<and> answers_a ua \<noteq> None \<and> truthy_j (map_of ex ''answers'')
             then Some (JObj (spread (the (map_of ex ''answers''))
                                (JObj (map (\<lambda>(k, v). (k, JStr v)) (the (answers_a ua))))))
             else (case map_of (props (artifacts_obj ua)) k of
                     Some v \<Rightarrow> Some v
                   | None \<Rightarrow> map_of ex k))"
    using update_fields_artifacts [OF assms(2,3)] by blast
  have "map_of (hashes (hset s (K_run rid) fvs) (K_run rid)) ''artifacts'' = Some (Jsn (JObj m))"
    by (simp add: hashes_hset map_of_foldl_update a)
  then have stored: "map_of (hgetall s' (K_run rid)) ''artifacts'' = Some (Jsn (JObj m))"
    using assms(1,4) f
    by (auto simp add: updateRun_def Let_def hgetall_def hashes_del hashes_updateJobStatus_other
        split: sum.splits if_splits)
  have keywise: "\<exists>ma. map_of m ''answers'' = Some (JObj ma)
              \<and> map_of ma = map_of ea ++ map_of (map (\<lambda>(k, v). (k, JStr v)) kvs)"
    if "map_of ex ''answers'' = Some (JObj ea)" "answers_a ua = Some kvs" "distinct (map fst kvs)"
    for ea kvs
  proof -
    have d: "distinct (map fst (map (\<lambda>(k, v). (k, JStr v)) kvs))"
      using that(3) by (simp add: comp_def case_prod_unfold)
    show ?thesis
      using m that(1,2) by (simp add: map_of_spread map_of_rev_distinct [OF d])
  qed
  show ?thesis
    using stored m keywise by blast
qed

lemma updateRun_merges_artifacts_example:
  "map_of (hgetall st_art0 (K_run ''r1'')) ''artifacts''
     = Some (Jsn (JObj [(''resume_url'', JStr ''a'')]))
   \<and> map_of (hgetall st_art1 (K_run ''r1'')) ''artifacts''
     = Some (Jsn (JObj [(''resume_url'', JStr ''a''), (''notes'', JStr ''b'')]))
   \<and> map_of (hgetall st_art3 (K_run ''r1'')) ''artifacts''
     = Some (Jsn (JObj [(''resume_url'', JStr ''a''), (''notes'', JStr ''b''),
                        (''answers'', JObj [(''x'', JStr ''1''), (''y'', JStr ''2'')])]))
   \<and> (\<exists>m ma. map_of (hgetall st_art3 (K_run ''r1'')) ''artifacts'' = Some (Jsn (JObj m))
        \<and> map_of m ''resume_url'' = Some (JStr ''a'') \<and> map_of m ''notes'' = Some (JStr ''b'')
        \<and> map_of m ''answers'' = Some (JObj ma)
        \<and> map_of ma = [''x'' \<mapsto> JStr ''1'', ''y'' \<mapsto> JStr ''2''])"
proof -
  have c0: "map_of (hgetall st_art0 (K_run ''r1'')) ''artifacts''
     = Some (Jsn (JObj [(''resume_url'', JStr ''a'')]))"
    by code_simp
  have c1: "map_of (hgetall st_art1 (K_run ''r1'')) ''artifacts''
     = Some (Jsn (JObj [(''resume_url'', JStr ''a''), (''notes'', JStr ''b'')]))"
    by code_simp
  have c2: "map_of (hgetall st_art2 (K_run ''r1'')) ''artifacts''
     = Some (Jsn (JObj [(''resume_url'', JStr ''a''), (''notes'', JStr ''b''),
                        (''answers'', JObj [(''x'', JStr ''1'')])]))"
    by code_simp
  have c3: "map_of (hgetall st_art3 (K_run ''r1'')) ''artifacts''
     = Some (Jsn (JObj [(''resume_url'', JStr ''a''), (''notes'', JStr ''b''),
                        (''answers'', JObj [(''x'', JStr ''1''), (''y'', JStr ''2'')])]))"
    by code_simp
  have t: "truthy (fld (hgetall st_art2 (K_run ''r1'')) ''run_id'')"
    by code_simp
  have u: "artifacts_u (with_artifacts (art_answers [(''y'', ''2'')]))
           = Some (art_answers [(''y'', ''2'')])"
    by (simp add: with_artifacts_def)
  have "\<not> isl (fst (updateRun st_art2 ''t4'' ''r1'' (with_artifacts (art_answers [(''y'', ''2'')]))))"
    by code_simp
  then obtain res where
    "fst (updateRun st_art2 ''t4'' ''r1'' (with_artifacts (art_answers [(''y'', ''2'')]))) = Inr res"
    using not_isl_Inr by blast
  then have r: "updateRun st_art2 ''t4'' ''r1'' (with_artifacts (art_answers [(''y'', ''2'')]))
                = (Inr res, st_art3)"
    by (simp add: st_art3_def prod_eq_iff)
  obtain m where m: "map_of (hgetall st_art3 (K_run ''r1'')) ''artifacts'' = Some (Jsn (JObj m))"
    and lk: "\<forall>k. map_of m k =
            (if k = ''answers'' \<and> answers_a (art_answers [(''y'', ''2'')]) \<noteq> None
                \<and> truthy_j (map_of [(''resume_url'', JStr ''a''), (''notes'', JStr ''b''),
                        (''answers'', JObj [(''x'', JStr ''1'')])] ''answers'')
             then Some (JObj (spread (the (map_of [(''resume_url'', JStr ''a''), (''notes'', JStr ''b''),
                        (''answers'', JObj [(''x'', JStr ''1'')])] ''answers''))
                                (JObj (map (\<lambda>(k, v). (k, JStr v)) (the (answers_a (art_answers [(''y'', ''2'')])))))))
             else (case map_of (props (artifacts_obj (art_answers [(''y'', ''2'')]))) k of
                     Some v \<Rightarrow> Some v
                   | None \<Rightarrow> map_of [(''resume_url'', JStr ''a''), (''notes'', JStr ''b''),
                        (''answers'', JObj [(''x'', JStr ''1'')])] k))"
    and kw: "\<forall>ea kvs. map_of [(''resume_url'', JStr ''a''), (''notes'', JStr ''b''),
                        (''answers'', JObj [(''x'', JStr ''1'')])] ''answers'' = Some (JObj ea)
             \<and> answers_a (art_answers [(''y'', ''2'')]) = Some kvs
             \<and> distinct (map fst kvs) \<longrightarrow>
           (\<exists>ma. map_of m ''answers'' = Some (JObj ma)
              \<and> map_of ma = map_of ea ++ map_of (map (\<lambda>(k, v). (k, JStr v)) kvs))"
    using updateRun_merges_artifacts [OF t c2 u r] by blast
  have "map_of m ''resume_url'' = Some (JStr ''a'')" "map_of m ''notes'' = Some (JStr ''b'')"
    using lk by (simp_all add: art_answers_def artifacts_obj_def)
  moreover have "\<exists>ma. map_of m ''answers'' = Some (JObj ma)
        \<and> map_of ma = [''x'' \<mapsto> JStr ''1'', ''y'' \<mapsto> JStr ''2'']"
    using kw by (simp add: art_answers_def)
  ultimately show ?thesis
    using c0 c1 c3 m by blast
qed

lemma updateRun_throws_before_write:
  "truthy (fld (hgetall s (K_run rid)) ''run_id'') \<Longrightarrow>
   update_fields (hgetall s (K_run rid)) now upd = Inl e \<Longrightarrow>
   updateRun s now rid upd = (Inl e, s)"
  by (simp add: updateRun_def Let_def)

text \<open>
  Claim C6 (the artifact merge is additive) says that \<open>updateRun\<close> merges the artifacts it
  is given into those the run has. \<open>updateRun\<close> reads the stored artifacts with
  \<open>data.artifacts ? JSON.parse(data.artifacts) : {}\<close>, so that a run without artifacts
  starts from the empty object. But \<open>createRun\<close> writes \<open>JSON.stringify(null)\<close> for a run
  created without artifacts: the field is the text \<open>null\<close>, which is not empty, and the
  merge starts from \<open>null\<close>. An update that carries \<open>answers\<close> then reads
  \<open>existing.answers\<close> of \<open>null\<close>: run \<open>r1\<close> of the scenario, created without artifacts
  and given \<open>{answers: {"x": "1"}}\<close>, gets a TypeError, and nothing is written.
\<close>

theorem updateRun_answers_on_null_artifacts:
  "map_of (hgetall st_claimed (K_run ''r1'')) ''artifacts'' = Some (Jsn JNull)
   \<and> updateRun st_claimed ''t2'' ''r1'' (with_artifacts (art_answers [(''x'', ''1'')]))
       = (Inl TypeError, st_claimed)"
proof -
  have a: "map_of (hgetall st_claimed (K_run ''r1'')) ''artifacts'' = Some (Jsn JNull)"
    by code_simp
  have t: "truthy (fld (hgetall st_claimed (K_run ''r1'')) ''run_id'')"
    by code_simp
  have u: "update_fields (hgetall st_claimed (K_run ''r1'')) ''t2''
             (with_artifacts (art_answers [(''x'', ''1'')])) = Inl TypeError"
    by code_simp
  show ?thesis
    using a updateRun_throws_before_write [OF t u] by simp
qed

section \<open>What a run update does to its job\<close>

lemma K_run_inj [simp]: "(K_run a = K_run b) = (a = b)"
  by (simp add: K_defs)

lemma collect_Inr: "collect xs = Inr ys \<Longrightarrow> xs = map Inr ys"
proof (induction xs arbitrary: ys)
  case Nil
  then show ?case by simp
next
  case (Cons x xs)
  then show ?case
    by (cases x) (auto split: sum.splits)
qed

lemma parseRunHash_Some:
  "parseRunHash d = Inr (Some r) \<Longrightarrow>
   truthy (fld d ''run_id'') \<and> jr_run_id r = fld d ''run_id'' \<and> jr_status r = fld d ''status''"
  by (auto simp add: parseRunHash_def split: if_splits sum.splits)

lemma parseRunHash_None:
  "parseRunHash d = Inr None \<Longrightarrow> \<not> truthy (fld d ''run_id'')"
  by (auto simp add: parseRunHash_def split: if_splits sum.splits)

lemma listRuns_active:
  assumes "listRuns s (Some j) = Inr sibs" and "j \<noteq> []"
  shows "hasActiveRun sibs rid \<longleftrightarrow>
    (\<exists>rid' \<in> set (sets s (K_jobRunsIdx j)).
        truthy (fld (hashes s (K_run rid')) ''run_id'')
        \<and> fld (hashes s (K_run rid')) ''run_id'' \<noteq> Some rid
        \<and> (fld (hashes s (K_run rid')) ''status'' = Some ''pending''
           \<or> fld (hashes s (K_run rid')) ''status'' = Some ''submitted''))"
proof -
  obtain runs where c: "collect (map (\<lambda>rid. parseRunHash (hashes s (K_run rid)))
                           (sets s (K_jobRunsIdx j))) = Inr runs"
    and sibs: "sibs = map the (filter (\<lambda>r. r \<noteq> None) runs)"
    using assms by (auto simp add: listRuns_def smembers_def hgetall_def split: sum.splits)
  have m: "map (\<lambda>rid. parseRunHash (hashes s (K_run rid))) (sets s (K_jobRunsIdx j)) = map Inr runs"
    using collect_Inr [OF c] .
  have sm: "(\<lambda>rid. parseRunHash (hashes s (K_run rid))) ` set (sets s (K_jobRunsIdx j))
            = Inr ` set runs"
    using arg_cong [OF m, of set] by simp
  have in_sibs: "sr \<in> set sibs \<longleftrightarrow>
      (\<exists>rid' \<in> set (sets s (K_jobRunsIdx j)). parseRunHash (hashes s (K_run rid')) = Inr (Some sr))"
    for sr
  proof
    assume "sr \<in> set sibs"
    then have "Some sr \<in> set runs" using sibs by auto
    then have "Inr (Some sr) \<in> (\<lambda>rid. parseRunHash (hashes s (K_run rid))) ` set (sets s (K_jobRunsIdx j))"
      unfolding sm by blast
    then show "\<exists>rid' \<in> set (sets s (K_jobRunsIdx j)).
                 parseRunHash (hashes s (K_run rid')) = Inr (Some sr)"
      by force
  next
    assume "\<exists>rid' \<in> set (sets s (K_jobRunsIdx j)).
              parseRunHash (hashes s (K_run rid')) = Inr (Some sr)"
    then have "Inr (Some sr) \<in> (\<lambda>rid. parseRunHash (hashes s (K_run rid))) ` set (sets s (K_jobRunsIdx j))"
      by force
    then have "Some sr \<in> set runs" unfolding sm by blast
    then show "sr \<in> set sibs" using sibs by force
  qed
  have parsed: "\<exists>x. parseRunHash (hashes s (K_run rid')) = Inr x"
    if "rid' \<in> set (sets s (K_jobRunsIdx j))" for rid'
  proof -
    have "parseRunHash (hashes s (K_run rid')) \<in> Inr ` set runs"
      using that sm by blast
    then show ?thesis by blast
  qed
  show ?thesis
  proof
    assume "hasActiveRun sibs rid"
    then obtain sr where sr: "sr \<in> set sibs" "jr_run_id sr \<noteq> Some rid"
      "jr_status sr = Some ''pending'' \<or> jr_status sr = Some ''submitted''"
      by (auto simp add: hasActiveRun_def)
    then obtain rid' where r: "rid' \<in> set (sets s (K_jobRunsIdx j))"
      "parseRunHash (hashes s (K_run rid')) = Inr (Some sr)"
      using in_sibs by blast
    show "\<exists>rid' \<in> set (sets s (K_jobRunsIdx j)).
        truthy (fld (hashes s (K_run rid')) ''run_id'')
        \<and> fld (hashes s (K_run rid')) ''run_id'' \<noteq> Some rid
        \<and> (fld (hashes s (K_run rid')) ''status'' = Some ''pending''
           \<or> fld (hashes s (K_run rid')) ''status'' = Some ''submitted'')"
      using r(1) parseRunHash_Some [OF r(2)] sr(2,3) by (intro bexI [of _ rid']) auto
  next
    assume "\<exists>rid' \<in> set (sets s (K_jobRunsIdx j)).
        truthy (fld (hashes s (K_run rid')) ''run_id'')
        \<and> fld (hashes s (K_run rid')) ''run_id'' \<noteq> Some rid
        \<and> (fld (hashes s (K_run rid')) ''status'' = Some ''pending''
           \<or> fld (hashes s (K_run rid')) ''status'' = Some ''submitted'')"
    then obtain rid' where r: "rid' \<in> set (sets s (K_jobRunsIdx j))"
      "truthy (fld (hashes s (K_run rid')) ''run_id'')"
      "fld (hashes s (K_run rid')) ''run_id'' \<noteq> Some rid"
      "fld (hashes s (K_run rid')) ''status'' = Some ''pending''
           \<or> fld (hashes s (K_run rid')) ''status'' = Some ''submitted''"
      by blast
    obtain x where x: "parseRunHash (hashes s (K_run rid')) = Inr x"
      using parsed [OF r(1)] by blast
    then obtain sr where sr: "x = Some sr"
      using r(2) parseRunHash_None by (cases x) auto
    have "sr \<in> set sibs" using in_sibs r(1) x sr by blast
    moreover have "jr_run_id sr \<noteq> Some rid"
      "jr_status sr = Some ''pending'' \<or> jr_status sr = Some ''submitted''"
      using parseRunHash_Some [OF x [unfolded sr]] r(3,4) by auto
    ultimately show "hasActiveRun sibs rid"
      unfolding hasActiveRun_def by blast
  qed
qed

lemma hashes_updateJobStatus_absent:
  "\<not> truthy (fld (hashes s (K_job b j)) ''job_id'') \<Longrightarrow> snd (updateJobStatus s now b j st) = s"
  by (simp add: updateJobStatus_def hgetall_def)

lemma fld_status_updateJobStatus:
  "truthy (fld (hashes s (K_job b j)) ''job_id'') \<Longrightarrow>
   fld (hashes (snd (updateJobStatus s now b j st)) (K_job b j)) ''status''
   = Some (job_status_text st)"
  by (simp add: updateJobStatus_ok fld_hset)

lemma update_fields_Failed_status:
  "update_fields data now upd = Inr fvs \<Longrightarrow> status_u upd = Failed \<Longrightarrow>
   map_of (rev fvs) ''status'' = Some (Txt ''failed'')"
  using update_fields_status [of data now upd fvs] by simp

lemma update_fields_run_id:
  "update_fields data now upd = Inr fvs \<Longrightarrow> map_of (rev fvs) ''run_id'' = None"
  by (auto simp add: update_fields_def Let_def split: option.splits sum.splits if_splits)

lemma updateRun_Inr_pair:
  "\<not> isl (fst (updateRun s now rid upd)) \<Longrightarrow>
   \<exists>res. updateRun s now rid upd = (Inr res, snd (updateRun s now rid upd))"
  using not_isl_Inr [of "fst (updateRun s now rid upd)"] by (auto simp add: prod_eq_iff)

text \<open>
  What \<open>updateRun\<close> does to the job the run names. Let the run exist and name a job that
  exists, and let \<open>updateRun\<close> return. With status \<open>success\<close> the job's status becomes
  \<open>applied\<close> and the apply lock of \<open>(board, job_id)\<close> is deleted. With status \<open>failed\<close>
  the lock is deleted in every case; the job's status becomes \<open>discovered\<close> if no other
  run listed in \<open>idx:job_runs:<job_id>\<close> is \<open>pending\<close> or \<open>submitted\<close>, and the job's
  hash is left as it was if there is such a run. With status \<open>pending\<close> or \<open>submitted\<close>
  the job's hash, every set and every lock are left as they were.
\<close>

lemma updateRun_job_effects:
  assumes "truthy (fld (hgetall s (K_run rid)) ''run_id'')"
    and "truthy (fld (hgetall s (K_run rid)) ''job_id'')"
    and "b = str (fld (hgetall s (K_run rid)) ''board'')"
    and "j = str (fld (hgetall s (K_run rid)) ''job_id'')"
    and "truthy (fld (hgetall s (K_job b j)) ''job_id'')"
    and "updateRun s now rid upd = (Inr res, s')"
  shows "(status_u upd = Success \<longrightarrow>
            fld (hgetall s' (K_job b j)) ''status'' = Some ''applied''
            \<and> strs s' (K_applyLock b j) = None)
       \<and> (status_u upd = Failed \<longrightarrow>
            ((\<exists>rid' \<in> set (smembers s (K_jobRunsIdx j)).
                 rid' \<noteq> rid
                 \<and> truthy (fld (hgetall s (K_run rid')) ''run_id'')
                 \<and> fld (hgetall s (K_run rid')) ''run_id'' \<noteq> Some rid
                 \<and> (fld (hgetall s (K_run rid')) ''status'' = Some ''pending''
                    \<or> fld (hgetall s (K_run rid')) ''status'' = Some ''submitted''))
             \<longrightarrow> hgetall s' (K_job b j) = hgetall s (K_job b j))
            \<and> (\<not> (\<exists>rid' \<in> set (smembers s (K_jobRunsIdx j)).
                 rid' \<noteq> rid
                 \<and> truthy (fld (hgetall s (K_run rid')) ''run_id'')
                 \<and> fld (hgetall s (K_run rid')) ''run_id'' \<noteq> Some rid
                 \<and> (fld (hgetall s (K_run rid')) ''status'' = Some ''pending''
                    \<or> fld (hgetall s (K_run rid')) ''status'' = Some ''submitted''))
             \<longrightarrow> fld (hgetall s' (K_job b j)) ''status'' = Some ''discovered'')
            \<and> strs s' (K_applyLock b j) = None)
       \<and> (status_u upd = Pending \<or> status_u upd = Submitted \<longrightarrow>
            hgetall s' (K_job b j) = hgetall s (K_job b j)
            \<and> strs s' = strs s \<and> sets s' = sets s)"
proof -
  let ?data = "hgetall s (K_run rid)"
  obtain fvs where f: "update_fields ?data now upd = Inr fvs"
    using assms(1,6) by (auto simp add: updateRun_def Let_def split: sum.splits)
  let ?s1 = "hset s (K_run rid) fvs"
  have job1: "truthy (fld (hashes ?s1 (K_job b j)) ''job_id'')"
    using assms(5) by (simp add: hashes_hset hgetall_def)
  have jd: "fld ?data ''job_id'' = Some j" "j \<noteq> []"
    using assms(2,4) by (cases "fld ?data ''job_id''"; simp)+
  have succ: "fld (hgetall s' (K_job b j)) ''status'' = Some ''applied''
            \<and> strs s' (K_applyLock b j) = None" if "status_u upd = Success"
  proof -
    have "s' = del (snd (updateJobStatus ?s1 now b j Applied)) (K_applyLock b j)"
      using assms(1,3,4,6) f that by (auto simp add: updateRun_def Let_def)
    then show ?thesis
      using fld_status_updateJobStatus [OF job1, of now Applied]
      by (simp add: hgetall_def hashes_del)
  qed
  have other: "hgetall s' (K_job b j) = hgetall s (K_job b j)
            \<and> strs s' = strs s \<and> sets s' = sets s"
    if "status_u upd = Pending \<or> status_u upd = Submitted"
  proof -
    have "s' = ?s1"
      using assms(1,6) f that by (auto simp add: updateRun_def Let_def)
    then show ?thesis
      by (simp add: hgetall_def hashes_hset)
  qed
  have fail: "((\<exists>rid' \<in> set (smembers s (K_jobRunsIdx j)).
                 rid' \<noteq> rid
                 \<and> truthy (fld (hgetall s (K_run rid')) ''run_id'')
                 \<and> fld (hgetall s (K_run rid')) ''run_id'' \<noteq> Some rid
                 \<and> (fld (hgetall s (K_run rid')) ''status'' = Some ''pending''
                    \<or> fld (hgetall s (K_run rid')) ''status'' = Some ''submitted''))
             \<longrightarrow> hgetall s' (K_job b j) = hgetall s (K_job b j))
            \<and> (\<not> (\<exists>rid' \<in> set (smembers s (K_jobRunsIdx j)).
                 rid' \<noteq> rid
                 \<and> truthy (fld (hgetall s (K_run rid')) ''run_id'')
                 \<and> fld (hgetall s (K_run rid')) ''run_id'' \<noteq> Some rid
                 \<and> (fld (hgetall s (K_run rid')) ''status'' = Some ''pending''
                    \<or> fld (hgetall s (K_run rid')) ''status'' = Some ''submitted''))
             \<longrightarrow> fld (hgetall s' (K_job b j)) ''status'' = Some ''discovered'')
            \<and> strs s' (K_applyLock b j) = None" if fl: "status_u upd = Failed"
  proof -
    obtain sibs where l: "listRuns ?s1 (Some j) = Inr sibs"
      using assms(1,6) f fl jd by (auto simp add: updateRun_def Let_def split: sum.splits)
    have s': "s' = del (if \<not> hasActiveRun sibs rid
                        then snd (updateJobStatus ?s1 now b j Discovered) else ?s1)
                       (K_applyLock b j)"
      using assms(1,3,4,6) f fl jd l by (auto simp add: updateRun_def Let_def)
    have act: "hasActiveRun sibs rid \<longleftrightarrow>
       (\<exists>rid' \<in> set (smembers s (K_jobRunsIdx j)).
                 rid' \<noteq> rid
                 \<and> truthy (fld (hgetall s (K_run rid')) ''run_id'')
                 \<and> fld (hgetall s (K_run rid')) ''run_id'' \<noteq> Some rid
                 \<and> (fld (hgetall s (K_run rid')) ''status'' = Some ''pending''
                    \<or> fld (hgetall s (K_run rid')) ''status'' = Some ''submitted''))"
      unfolding listRuns_active [OF l jd(2)]
      using update_fields_Failed_status [OF f fl] update_fields_run_id [OF f]
      by (auto simp add: fld_hset smembers_def hgetall_def split: if_splits)
    show ?thesis
      unfolding act [symmetric] s'
      using fld_status_updateJobStatus [OF job1, of now Discovered]
      by (simp add: hgetall_def hashes_del hashes_hset)
  qed
  show ?thesis
    using succ fail other by blast
qed

lemma updateRun_job_effects_example:
  "fld (hgetall (snd (updateRun st_claimed ''t2'' ''r1'' (report Success))) (K_job ''ramp'' ''42''))
       ''status'' = Some ''applied''
   \<and> strs (snd (updateRun st_claimed ''t2'' ''r1'' (report Success))) (K_applyLock ''ramp'' ''42'')
       = None
   \<and> fld (hgetall (snd (updateRun st_claimed ''t2'' ''r1'' (report Failed))) (K_job ''ramp'' ''42''))
       ''status'' = Some ''discovered''
   \<and> strs (snd (updateRun st_claimed ''t2'' ''r1'' (report Failed))) (K_applyLock ''ramp'' ''42'')
       = None
   \<and> hgetall (snd (updateRun st_two ''t10'' ''r1'' (report Failed))) (K_job ''ramp'' ''42'')
       = hgetall st_two (K_job ''ramp'' ''42'')
   \<and> strs (snd (updateRun st_two ''t10'' ''r1'' (report Failed))) (K_applyLock ''ramp'' ''42'')
       = None
   \<and> hgetall (snd (updateRun st_claimed ''t2'' ''r1'' (report Submitted))) (K_job ''ramp'' ''42'')
       = hgetall st_claimed (K_job ''ramp'' ''42'')
   \<and> strs (snd (updateRun st_claimed ''t2'' ''r1'' (report Submitted))) = strs st_claimed"
proof -
  have c1: "truthy (fld (hgetall st_claimed (K_run ''r1'')) ''run_id'')"
    and c2: "truthy (fld (hgetall st_claimed (K_run ''r1'')) ''job_id'')"
    and c3: "''ramp'' = str (fld (hgetall st_claimed (K_run ''r1'')) ''board'')"
    and c4: "''42'' = str (fld (hgetall st_claimed (K_run ''r1'')) ''job_id'')"
    and c5: "truthy (fld (hgetall st_claimed (K_job ''ramp'' ''42'')) ''job_id'')"
    by code_simp+
  have t1: "truthy (fld (hgetall st_two (K_run ''r1'')) ''run_id'')"
    and t2: "truthy (fld (hgetall st_two (K_run ''r1'')) ''job_id'')"
    and t3: "''ramp'' = str (fld (hgetall st_two (K_run ''r1'')) ''board'')"
    and t4: "''42'' = str (fld (hgetall st_two (K_run ''r1'')) ''job_id'')"
    and t5: "truthy (fld (hgetall st_two (K_job ''ramp'' ''42'')) ''job_id'')"
    by code_simp+
  have alone: "\<not> (\<exists>rid' \<in> set (smembers st_claimed (K_jobRunsIdx ''42'')).
                 rid' \<noteq> ''r1''
                 \<and> truthy (fld (hgetall st_claimed (K_run rid')) ''run_id'')
                 \<and> fld (hgetall st_claimed (K_run rid')) ''run_id'' \<noteq> Some ''r1''
                 \<and> (fld (hgetall st_claimed (K_run rid')) ''status'' = Some ''pending''
                    \<or> fld (hgetall st_claimed (K_run rid')) ''status'' = Some ''submitted''))"
    by code_simp
  have sibling: "\<exists>rid' \<in> set (smembers st_two (K_jobRunsIdx ''42'')).
                 rid' \<noteq> ''r1''
                 \<and> truthy (fld (hgetall st_two (K_run rid')) ''run_id'')
                 \<and> fld (hgetall st_two (K_run rid')) ''run_id'' \<noteq> Some ''r1''
                 \<and> (fld (hgetall st_two (K_run rid')) ''status'' = Some ''pending''
                    \<or> fld (hgetall st_two (K_run rid')) ''status'' = Some ''submitted'')"
    by code_simp
  have "\<not> isl (fst (updateRun st_claimed ''t2'' ''r1'' (report Success)))"
    by code_simp
  then obtain r1 where u1: "updateRun st_claimed ''t2'' ''r1'' (report Success)
      = (Inr r1, snd (updateRun st_claimed ''t2'' ''r1'' (report Success)))"
    using updateRun_Inr_pair by blast
  have "\<not> isl (fst (updateRun st_claimed ''t2'' ''r1'' (report Failed)))"
    by code_simp
  then obtain r2 where u2: "updateRun st_claimed ''t2'' ''r1'' (report Failed)
      = (Inr r2, snd (updateRun st_claimed ''t2'' ''r1'' (report Failed)))"
    using updateRun_Inr_pair by blast
  have "\<not> isl (fst (updateRun st_two ''t10'' ''r1'' (report Failed)))"
    by code_simp
  then obtain r3 where u3: "updateRun st_two ''t10'' ''r1'' (report Failed)
      = (Inr r3, snd (updateRun st_two ''t10'' ''r1'' (report Failed)))"
    using updateRun_Inr_pair by blast
  have "\<not> isl (fst (updateRun st_claimed ''t2'' ''r1'' (report Submitted)))"
    by code_simp
  then obtain r4 where u4: "updateRun st_claimed ''t2'' ''r1'' (report Submitted)
      = (Inr r4, snd (updateRun st_claimed ''t2'' ''r1'' (report Submitted)))"
    using updateRun_Inr_pair by blast
  have a: "fld (hgetall (snd (updateRun st_claimed ''t2'' ''r1'' (report Success)))
                  (K_job ''ramp'' ''42'')) ''status'' = Some ''applied''
           \<and> strs (snd (updateRun st_claimed ''t2'' ''r1'' (report Success)))
                  (K_applyLock ''ramp'' ''42'') = None"
    using updateRun_job_effects [OF c1 c2 c3 c4 c5 u1] by (simp add: report_def)
  have b: "fld (hgetall (snd (updateRun st_claimed ''t2'' ''r1'' (report Failed)))
                  (K_job ''ramp'' ''42'')) ''status'' = Some ''discovered''
           \<and> strs (snd (updateRun st_claimed ''t2'' ''r1'' (report Failed)))
                  (K_applyLock ''ramp'' ''42'') = None"
    using updateRun_job_effects [OF c1 c2 c3 c4 c5 u2] alone by (simp add: report_def)
  have c: "hgetall (snd (updateRun st_two ''t10'' ''r1'' (report Failed))) (K_job ''ramp'' ''42'')
             = hgetall st_two (K_job ''ramp'' ''42'')
           \<and> strs (snd (updateRun st_two ''t10'' ''r1'' (report Failed)))
                  (K_applyLock ''ramp'' ''42'') = None"
    using updateRun_job_effects [OF t1 t2 t3 t4 t5 u3] sibling by (simp add: report_def)
  have d: "hgetall (snd (updateRun st_claimed ''t2'' ''r1'' (report Submitted)))
                  (K_job ''ramp'' ''42'') = hgetall st_claimed (K_job ''ramp'' ''42'')
           \<and> strs (snd (updateRun st_claimed ''t2'' ''r1'' (report Submitted))) = strs st_claimed"
    using updateRun_job_effects [OF c1 c2 c3 c4 c5 u4] by (simp add: report_def)
  show ?thesis
    using a b c d by blast
qed

text \<open>
  Claim C3 (side effects of \<open>updateRun\<close> on the owning job) says that on \<open>failed\<close> the
  job goes back to \<open>discovered\<close> if and only if no sibling run, a run of the same job, is
  \<open>pending\<close> or \<open>submitted\<close>. A job is a \<open>(board, job_id)\<close> pair, and its key and its
  lock carry both; the index of its runs, \<open>idx:job_runs:<job_id>\<close>, carries the job id
  only, and the check for "other active runs for this job" does not look at the board of a
  run. With job 42 of board \<open>ramp\<close> claimed by \<open>r1\<close> and job 42 of board \<open>stripe\<close>
  claimed by \<open>r2\<close>, reporting \<open>r1\<close> failed leaves \<open>ramp/42\<close> \<open>queued\<close> with its lock
  deleted, though the only other run listed belongs to the job of the other board.
\<close>

theorem updateRun_cross_board_sibling:
  "smembers st_cross (K_jobRunsIdx ''42'') = [''r1'', ''r2'']
   \<and> fld (hgetall st_cross (K_run ''r1'')) ''board'' = Some ''ramp''
   \<and> fld (hgetall st_cross (K_run ''r2'')) ''board'' = Some ''stripe''
   \<and> fld (hgetall st_cross (K_run ''r2'')) ''status'' = Some ''pending''
   \<and> fld (hgetall st_cross (K_job ''ramp'' ''42'')) ''status'' = Some ''queued''
   \<and> fld (hgetall (snd (updateRun st_cross ''t4'' ''r1'' (report Failed))) (K_run ''r1''))
         ''status'' = Some ''failed''
   \<and> fld (hgetall (snd (updateRun st_cross ''t4'' ''r1'' (report Failed))) (K_job ''ramp'' ''42''))
         ''status'' = Some ''queued''
   \<and> strs (snd (updateRun st_cross ''t4'' ''r1'' (report Failed))) (K_applyLock ''ramp'' ''42'')
         = None"
  by code_simp

section \<open>Pipelines\<close>

lemma exec_cmd_member_grows:
  "c \<noteq> SAdd k m \<Longrightarrow> m \<in> set (sets (exec_cmd s c) k) \<Longrightarrow> m \<in> set (sets s k)"
  by (cases c) (auto simp add: set_sets_sadd set_sets_srem sets_del split: if_splits)

lemma execPipe_member_grows:
  "SAdd k m \<notin> set pipe \<Longrightarrow> m \<in> set (sets (execPipe s pipe) k) \<Longrightarrow> m \<in> set (sets s k)"
proof (induction pipe arbitrary: s)
  case Nil
  then show ?case by simp
next
  case (Cons c cs)
  then have "m \<in> set (sets (exec_cmd s c) k)" by simp
  then show ?case using Cons.prems(1) exec_cmd_member_grows [of c k m s] by auto
qed

lemma exec_cmd_member_kept:
  "c \<noteq> SRem k m \<Longrightarrow> c \<noteq> Del k \<Longrightarrow> m \<in> set (sets s k) \<Longrightarrow> m \<in> set (sets (exec_cmd s c) k)"
  by (cases c) (auto simp add: set_sets_sadd set_sets_srem sets_del split: if_splits)

lemma execPipe_member_kept:
  "SRem k m \<notin> set pipe \<Longrightarrow> Del k \<notin> set pipe \<Longrightarrow> m \<in> set (sets s k) \<Longrightarrow>
   m \<in> set (sets (execPipe s pipe) k)"
proof (induction pipe arbitrary: s)
  case Nil
  then show ?case by simp
next
  case (Cons c cs)
  then have "m \<in> set (sets (exec_cmd s c) k)"
    using exec_cmd_member_kept [of c k m s] by auto
  then show ?case using Cons by simp
qed

lemma execPipe_member_removed:
  "SAdd k m \<notin> set pipe \<Longrightarrow> SRem k m \<in> set pipe \<or> Del k \<in> set pipe \<Longrightarrow>
   m \<notin> set (sets (execPipe s pipe) k)"
proof (induction pipe arbitrary: s)
  case Nil
  then show ?case by simp
next
  case (Cons c cs)
  show ?case
  proof (cases "SRem k m \<in> set cs \<or> Del k \<in> set cs")
    case True
    then show ?thesis using Cons by simp
  next
    case False
    then have c: "c = SRem k m \<or> c = Del k" using Cons.prems(2) by auto
    then have "m \<notin> set (sets (exec_cmd s c) k)"
      by (auto simp add: set_sets_srem sets_del)
    then show ?thesis
      using execPipe_member_grows [of k m cs "exec_cmd s c"] Cons.prems(1) by auto
  qed
qed

lemma exec_cmd_hash_kept:
  "(\<forall>fvs. c \<noteq> HSet k fvs) \<Longrightarrow> c \<noteq> Del k \<Longrightarrow> hashes (exec_cmd s c) k = hashes s k"
  by (cases c) (auto simp add: hashes_hset hashes_del)

lemma execPipe_hash_kept:
  "(\<forall>fvs. HSet k fvs \<notin> set pipe) \<Longrightarrow> Del k \<notin> set pipe \<Longrightarrow>
   hashes (execPipe s pipe) k = hashes s k"
proof (induction pipe arbitrary: s)
  case Nil
  then show ?case by simp
next
  case (Cons c cs)
  then have "hashes (exec_cmd s c) k = hashes s k"
    using exec_cmd_hash_kept [of c k s] by auto
  then show ?case using Cons by simp
qed

lemma exec_cmd_hash_empty:
  "(\<forall>fvs. c \<noteq> HSet k fvs) \<Longrightarrow> hashes s k = [] \<Longrightarrow> hashes (exec_cmd s c) k = []"
  by (cases c) (auto simp add: hashes_hset hashes_del)

lemma execPipe_hash_empty:
  "(\<forall>fvs. HSet k fvs \<notin> set pipe) \<Longrightarrow> hashes s k = [] \<Longrightarrow> hashes (execPipe s pipe) k = []"
proof (induction pipe arbitrary: s)
  case Nil
  then show ?case by simp
next
  case (Cons c cs)
  then have "hashes (exec_cmd s c) k = []"
    using exec_cmd_hash_empty [of c k s] by auto
  then show ?case using Cons by simp
qed

lemma execPipe_hash_deleted:
  "(\<forall>fvs. HSet k fvs \<notin> set pipe) \<Longrightarrow> Del k \<in> set pipe \<Longrightarrow> hashes (execPipe s pipe) k = []"
proof (induction pipe arbitrary: s)
  case Nil
  then show ?case by simp
next
  case (Cons c cs)
  show ?case
  proof (cases "Del k \<in> set cs")
    case True
    then show ?thesis using Cons by simp
  next
    case False
    then have "c = Del k" using Cons.prems(2) by simp
    then have "hashes (exec_cmd s c) k = []" by (simp add: hashes_del)
    then show ?thesis using execPipe_hash_empty [of k cs "exec_cmd s c"] Cons.prems(1) by simp
  qed
qed

lemma exec_cmd_strs_kept: "c \<noteq> Del k \<Longrightarrow> strs (exec_cmd s c) k = strs s k"
  by (cases c) (auto simp add: del_def)

lemma execPipe_strs_kept: "Del k \<notin> set pipe \<Longrightarrow> strs (execPipe s pipe) k = strs s k"
proof (induction pipe arbitrary: s)
  case Nil
  then show ?case by simp
next
  case (Cons c cs)
  then have "strs (exec_cmd s c) k = strs s k"
    using exec_cmd_strs_kept [of c k s] by auto
  then show ?case using Cons by simp
qed

lemma exec_cmd_set_kept:
  "(\<forall>m. c \<noteq> SAdd k m) \<Longrightarrow> (\<forall>m. c \<noteq> SRem k m) \<Longrightarrow> c \<noteq> Del k \<Longrightarrow>
   sets (exec_cmd s c) k = sets s k"
  by (cases c) (auto simp add: sadd_def srem_def sets_del)

lemma execPipe_set_kept:
  "(\<forall>m. SAdd k m \<notin> set pipe) \<Longrightarrow> (\<forall>m. SRem k m \<notin> set pipe) \<Longrightarrow> Del k \<notin> set pipe \<Longrightarrow>
   sets (execPipe s pipe) k = sets s k"
proof (induction pipe arbitrary: s)
  case Nil
  then show ?case by simp
next
  case (Cons c cs)
  then have "sets (exec_cmd s c) k = sets s k"
    using exec_cmd_set_kept [of c k s] by auto
  then show ?case using Cons by simp
qed

lemma execPipe_clock [simp]: "clock (execPipe s pipe) = clock s"
proof (induction pipe arbitrary: s)
  case Nil
  then show ?case by simp
next
  case (Cons c cs)
  then show ?case by (cases c) simp_all
qed


section \<open>Removing a board\<close>

lemma key_neq2 [simp]:
  "K_run r \<noteq> K_boardJobsIdx b" "K_boardJobsIdx b \<noteq> K_run r"
  "K_jobRunsIdx j \<noteq> K_job b j'" "K_job b j' \<noteq> K_jobRunsIdx j"
  "K_jobRunsIdx j \<noteq> K_boardJobsIdx b" "K_boardJobsIdx b \<noteq> K_jobRunsIdx j"
  "K_jobRunsIdx j \<noteq> K_board b" "K_board b \<noteq> K_jobRunsIdx j"
  "K_jobRunsIdx j \<noteq> K_boardsIdx" "K_boardsIdx \<noteq> K_jobRunsIdx j"
  "K_runsAll \<noteq> K_job b j" "K_job b j \<noteq> K_runsAll"
  "K_runsAll \<noteq> K_boardJobsIdx b" "K_boardJobsIdx b \<noteq> K_runsAll"
  "K_runsAll \<noteq> K_board b" "K_board b \<noteq> K_runsAll"
  "K_runsAll \<noteq> K_boardsIdx" "K_boardsIdx \<noteq> K_runsAll"
  "K_jobStatusIdx st \<noteq> K_job b j" "K_job b j \<noteq> K_jobStatusIdx st"
  "K_tagIdx t \<noteq> K_job b j" "K_job b j \<noteq> K_tagIdx t"
  "K_boardJobsIdx b \<noteq> K_job b' j" "K_job b' j \<noteq> K_boardJobsIdx b"
  "K_jobStatusIdx st \<noteq> K_board b" "K_board b \<noteq> K_jobStatusIdx st"
  "K_tagIdx t \<noteq> K_board b" "K_board b \<noteq> K_tagIdx t"
  "K_boardsIdx \<noteq> K_job b j" "K_job b j \<noteq> K_boardsIdx"
  "K_boardsIdx \<noteq> K_board b" "K_board b \<noteq> K_boardsIdx"
  "K_boardJobsIdx b \<noteq> K_board b'" "K_board b' \<noteq> K_boardJobsIdx b"
  "K_boardsIdx \<noteq> K_applyLock b j" "K_applyLock b j \<noteq> K_boardsIdx"
  by (simp_all add: K_defs)

lemma board_job_removal_cmds:
  "c \<in> set (board_job_removal s bid jid) \<Longrightarrow>
   c = Del (K_job bid jid) \<or> (\<exists>st. c = SRem (K_jobStatusIdx st) (ck_of bid jid))
   \<or> (\<exists>tag. c = SRem (K_tagIdx tag) (ck_of bid jid))"
proof -
  assume c: "c \<in> set (board_job_removal s bid jid)"
  let ?d = "hgetall s (K_job bid jid)"
  from c have "c \<in> set (if truthy (fld ?d ''status'')
          then [SRem (K_jobStatusIdx (str (fld ?d ''status''))) (ck_of bid jid)] else [])
      \<or> c \<in> set (if truthy (fld ?d ''tags'')
            then map (\<lambda>tag. SRem (K_tagIdx tag) (ck_of bid jid))
                     (split_on CHR '','' (str (fld ?d ''tags'')))
            else [])
      \<or> c = Del (K_job bid jid)"
    unfolding board_job_removal_def Let_def by simp blast
  then show ?thesis
  proof (elim disjE)
    assume "c \<in> set (if truthy (fld ?d ''status'')
          then [SRem (K_jobStatusIdx (str (fld ?d ''status''))) (ck_of bid jid)] else [])"
    then have "c = SRem (K_jobStatusIdx (str (fld ?d ''status''))) (ck_of bid jid)"
      by (cases "truthy (fld ?d ''status'')") simp_all
    then show ?thesis by blast
  next
    assume "c \<in> set (if truthy (fld ?d ''tags'')
            then map (\<lambda>tag. SRem (K_tagIdx tag) (ck_of bid jid))
                     (split_on CHR '','' (str (fld ?d ''tags'')))
            else [])"
    then have "c \<in> (\<lambda>tag. SRem (K_tagIdx tag) (ck_of bid jid))
                  ` set (split_on CHR '','' (str (fld ?d ''tags'')))"
      by (cases "truthy (fld ?d ''tags'')") simp_all
    then show ?thesis by blast
  next
    assume "c = Del (K_job bid jid)"
    then show ?thesis by blast
  qed
qed

lemma removal_pipe_cmds:
  "c \<in> set (removal_pipe s bid) \<Longrightarrow>
   (\<exists>jid. c = Del (K_job bid jid)) \<or> (\<exists>st m. c = SRem (K_jobStatusIdx st) m)
   \<or> (\<exists>tag m. c = SRem (K_tagIdx tag) m)
   \<or> c = Del (K_boardJobsIdx bid) \<or> c = Del (K_board bid) \<or> c = SRem K_boardsIdx bid"
proof -
  assume "c \<in> set (removal_pipe s bid)"
  then have "(\<exists>jid. c \<in> set (board_job_removal s bid jid))
     \<or> c = Del (K_boardJobsIdx bid) \<or> c = Del (K_board bid) \<or> c = SRem K_boardsIdx bid"
    unfolding removal_pipe_def by auto
  then show ?thesis
    using board_job_removal_cmds [of c s bid] by blast
qed

lemma removal_pipe_SRem:
  "SRem k m \<in> set (removal_pipe s bid) \<Longrightarrow>
   (\<exists>st. k = K_jobStatusIdx st) \<or> (\<exists>tag. k = K_tagIdx tag) \<or> k = K_boardsIdx"
  using removal_pipe_cmds [of "SRem k m" s bid] by auto

lemma removal_pipe_Del:
  "Del k \<in> set (removal_pipe s bid) \<Longrightarrow>
   (\<exists>jid. k = K_job bid jid) \<or> k = K_boardJobsIdx bid \<or> k = K_board bid"
  using removal_pipe_cmds [of "Del k" s bid] by auto

lemma removal_pipe_no_SAdd: "SAdd k m \<notin> set (removal_pipe s bid)"
  using removal_pipe_cmds [of "SAdd k m" s bid] by auto

lemma removal_pipe_no_HSet: "HSet k fvs \<notin> set (removal_pipe s bid)"
  using removal_pipe_cmds [of "HSet k fvs" s bid] by auto

lemma removal_pipe_job:
  assumes "jid \<in> set (smembers s (K_boardJobsIdx bid))"
  shows "Del (K_job bid jid) \<in> set (removal_pipe s bid)"
    and "truthy (fld (hgetall s (K_job bid jid)) ''status'') \<Longrightarrow>
         SRem (K_jobStatusIdx (str (fld (hgetall s (K_job bid jid)) ''status''))) (ck_of bid jid)
         \<in> set (removal_pipe s bid)"
    and "tag \<in> set (split_tags (hgetall s (K_job bid jid))) \<Longrightarrow>
         SRem (K_tagIdx tag) (ck_of bid jid) \<in> set (removal_pipe s bid)"
proof -
  have sub: "set (board_job_removal s bid jid) \<subseteq> set (removal_pipe s bid)"
    using assms by (auto simp add: removal_pipe_def)
  show "Del (K_job bid jid) \<in> set (removal_pipe s bid)"
    using sub by (auto simp add: board_job_removal_def Let_def)
  show "SRem (K_jobStatusIdx (str (fld (hgetall s (K_job bid jid)) ''status''))) (ck_of bid jid)
         \<in> set (removal_pipe s bid)"
    if "truthy (fld (hgetall s (K_job bid jid)) ''status'')"
    using sub that by (auto simp add: board_job_removal_def Let_def)
  show "SRem (K_tagIdx tag) (ck_of bid jid) \<in> set (removal_pipe s bid)"
    if "tag \<in> set (split_tags (hgetall s (K_job bid jid)))"
    using sub that by (auto simp add: board_job_removal_def Let_def split_tags_def split: if_splits)
qed

lemma removeBoard_present:
  "exists_key s (K_board bid) \<Longrightarrow> removeBoard s bid = (True, execPipe s (removal_pipe s bid))"
  by (simp add: removeBoard_def removal_pipe_def Let_def)

lemma empty_if_no_member: "(\<And>m. m \<notin> set xs) \<Longrightarrow> xs = []"
  by (cases xs) auto

text \<open>
  What \<open>removeBoard\<close> does, command by command. It answers not-found and changes nothing
  when no key of the board exists. Otherwise it answers true, and afterwards the board's
  hash and its job index are gone and the board is not in the boards index; for every job
  id of the job index, the job's hash is gone and its composite key is out of the status
  index named by the job's status field and out of the tag index of every tag in its tags
  field. Run hashes, run indexes and apply-lock keys are left as they were. For a non-empty
  board id, \<open>listJobs\<close> filtered by that board returns the empty list.
\<close>

lemma removeBoard_effects:
  assumes "removeBoard s bid = (ok, s')"
  shows "(\<not> exists_key s (K_board bid) \<longrightarrow> \<not> ok \<and> s' = s)
   \<and> (exists_key s (K_board bid) \<longrightarrow>
        ok
        \<and> hgetall s' (K_board bid) = []
        \<and> smembers s' (K_boardJobsIdx bid) = []
        \<and> bid \<notin> set (smembers s' K_boardsIdx)
        \<and> (\<forall>jid \<in> set (smembers s (K_boardJobsIdx bid)).
              hgetall s' (K_job bid jid) = []
              \<and> (truthy (fld (hgetall s (K_job bid jid)) ''status'') \<longrightarrow>
                   ck_of bid jid \<notin> set (smembers s'
                      (K_jobStatusIdx (str (fld (hgetall s (K_job bid jid)) ''status'')))))
              \<and> (\<forall>tag \<in> set (split_tags (hgetall s (K_job bid jid))).
                   ck_of bid jid \<notin> set (smembers s' (K_tagIdx tag))))
        \<and> (\<forall>r. hgetall s' (K_run r) = hgetall s (K_run r))
        \<and> (\<forall>j. smembers s' (K_jobRunsIdx j) = smembers s (K_jobRunsIdx j))
        \<and> smembers s' K_runsAll = smembers s K_runsAll
        \<and> (\<forall>b j. strs s' (K_applyLock b j) = strs s (K_applyLock b j))
        \<and> (bid \<noteq> [] \<longrightarrow>
             listJobs s' \<lparr>opt_board = Some bid, opt_status = None, opt_tag = None\<rparr> = []))"
proof (cases "exists_key s (K_board bid)")
  case False
  then show ?thesis using assms by (auto simp add: removeBoard_def)
next
  case True
  let ?pipe = "removal_pipe s bid"
  have ok: "ok" and s': "s' = execPipe s ?pipe"
    using assms removeBoard_present [OF True] by simp_all
  have in_pipe: "Del (K_boardJobsIdx bid) \<in> set ?pipe" "Del (K_board bid) \<in> set ?pipe"
    "SRem K_boardsIdx bid \<in> set ?pipe"
    by (simp_all add: removal_pipe_def)
  have board: "hgetall s' (K_board bid) = []"
    unfolding s' hgetall_def
    by (rule execPipe_hash_deleted) (simp_all add: removal_pipe_no_HSet in_pipe)
  have idx: "smembers s' (K_boardJobsIdx bid) = []"
    unfolding s' smembers_def
    by (rule empty_if_no_member, rule execPipe_member_removed)
       (simp_all add: removal_pipe_no_SAdd in_pipe)
  have boards: "bid \<notin> set (smembers s' K_boardsIdx)"
    unfolding s' smembers_def
    by (rule execPipe_member_removed) (simp_all add: removal_pipe_no_SAdd in_pipe)
  have jobs: "hgetall s' (K_job bid jid) = []
              \<and> (truthy (fld (hgetall s (K_job bid jid)) ''status'') \<longrightarrow>
                   ck_of bid jid \<notin> set (smembers s'
                      (K_jobStatusIdx (str (fld (hgetall s (K_job bid jid)) ''status'')))))
              \<and> (\<forall>tag \<in> set (split_tags (hgetall s (K_job bid jid))).
                   ck_of bid jid \<notin> set (smembers s' (K_tagIdx tag)))"
    if jid: "jid \<in> set (smembers s (K_boardJobsIdx bid))" for jid
  proof -
    have "hgetall s' (K_job bid jid) = []"
      unfolding s' hgetall_def
      by (rule execPipe_hash_deleted) (simp_all add: removal_pipe_no_HSet removal_pipe_job(1) [OF jid])
    moreover have "ck_of bid jid \<notin> set (smembers s'
                      (K_jobStatusIdx (str (fld (hgetall s (K_job bid jid)) ''status''))))"
      if "truthy (fld (hgetall s (K_job bid jid)) ''status'')"
      unfolding s' smembers_def
      by (rule execPipe_member_removed)
         (simp_all add: removal_pipe_no_SAdd removal_pipe_job(2) [OF jid that])
    moreover have "ck_of bid jid \<notin> set (smembers s' (K_tagIdx tag))"
      if "tag \<in> set (split_tags (hgetall s (K_job bid jid)))" for tag
      unfolding s' smembers_def
      by (rule execPipe_member_removed)
         (simp_all add: removal_pipe_no_SAdd removal_pipe_job(3) [OF jid that])
    ultimately show ?thesis by blast
  qed
  have runs: "hgetall s' (K_run r) = hgetall s (K_run r)" for r
    unfolding s' hgetall_def
    by (rule execPipe_hash_kept) (auto simp add: removal_pipe_no_HSet dest!: removal_pipe_Del)
  have run_idx: "smembers s' (K_jobRunsIdx j) = smembers s (K_jobRunsIdx j)" for j
    unfolding s' smembers_def
    by (rule execPipe_set_kept)
       (auto simp add: removal_pipe_no_SAdd dest!: removal_pipe_SRem removal_pipe_Del)
  have all_runs: "smembers s' K_runsAll = smembers s K_runsAll"
    unfolding s' smembers_def
    by (rule execPipe_set_kept)
       (auto simp add: removal_pipe_no_SAdd dest!: removal_pipe_SRem removal_pipe_Del)
  have locks: "strs s' (K_applyLock b j) = strs s (K_applyLock b j)" for b j
    unfolding s'
    by (rule execPipe_strs_kept) (auto dest!: removal_pipe_Del)
  have lj: "listJobs s' \<lparr>opt_board = Some bid, opt_status = None, opt_tag = None\<rparr> = []"
    if "bid \<noteq> []"
    using that idx by (simp add: listJobs_def Let_def)
  show ?thesis
    using True ok board idx boards jobs runs run_idx all_runs locks lj by simp
qed

lemma st_board_eq [code]:
  "st_board =
      \<lparr>hashes =
         (\<lambda>_. [])
         (''run:r1'' :=
            [(''run_id'', Txt ''r1''), (''job_id'', Txt ''42''),
             (''board'', Txt ''ramp''), (''variant_id'', Txt ''v1''),
             (''status'', Txt ''pending''), (''started_at'', Txt ''t1''),
             (''completed_at'', Txt []), (''error'', Txt []),
             (''artifacts'', Jsn JNull)],
            ''job:ramp:42'' :=
              [(''job_id'', Txt ''42''), (''board'', Txt ''ramp''),
               (''title'', Txt ''Quant Trader''), (''url'', Txt []),
               (''location'', Txt []), (''department'', Txt ''Trading''),
               (''tags'', Txt ''quant''), (''status'', Txt ''queued''),
               (''discovered_at'', Txt ''t0''),
               (''updated_at'', Txt ''t1'')],
            ''board:ramp'' :=
              [(''id'', Txt ''ramp''), (''company'', Txt ''Ramp''),
               (''ats'', Txt ''ashby''), (''created_at'', Txt ''t1'')]),
         sets =
           (\<lambda>_. [])
           (''idx:board_jobs:ramp'' := [''42''],
              ''idx:tag:quant'' := [''ramp:42''],
              ''idx:job_runs:42'' := [''r1''], ''idx:runs'' := [''r1''],
              ''idx:job_status:discovered'' := [],
              ''idx:job_status:queued'' := [''ramp:42''],
              ''idx:boards'' := [''ramp'']),
         strs = [''lock:apply:ramp:42'' \<mapsto> (''r1'', 300)], clock = 0\<rparr>"
  unfolding st_board_def st_claimed_eq
  by (simp add: addBoard_def eval_defs)

lemma st_board_no_stale:
  "(\<forall>jid st. ck_of ''ramp'' jid \<in> set (smembers st_board (K_jobStatusIdx st)) \<longrightarrow>
        jid \<in> set (smembers st_board (K_boardJobsIdx ''ramp''))
        \<and> st \<noteq> []
        \<and> fld (hgetall st_board (K_job ''ramp'' jid)) ''status'' = Some st)
   \<and> (\<forall>jid tag. ck_of ''ramp'' jid \<in> set (smembers st_board (K_tagIdx tag)) \<longrightarrow>
        jid \<in> set (smembers st_board (K_boardJobsIdx ''ramp''))
        \<and> tag \<in> set (split_tags (hgetall st_board (K_job ''ramp'' jid))))"
  by (auto simp add: st_board_eq smembers_def hgetall_def fld_def K_defs ck_of_def split_tags_def
      split: if_splits)

text \<open>
  Claim C7 says that \<open>removeBoard\<close> also removes the runs and the apply-lock keys of the
  board's jobs. It does not: in the scenario, with the board registered, removing the board
  deletes the job's hash, while the hash of run \<open>r1\<close>, its entries in the run indexes and
  the apply lock of the job are all still there.
\<close>

theorem removeBoard_runs_counterexample:
  "fst (removeBoard st_board ''ramp'')
   \<and> hgetall (snd (removeBoard st_board ''ramp'')) (K_job ''ramp'' ''42'') = []
   \<and> fld (hgetall (snd (removeBoard st_board ''ramp'')) (K_run ''r1'')) ''job_id'' = Some ''42''
   \<and> ''r1'' \<in> set (smembers (snd (removeBoard st_board ''ramp'')) (K_jobRunsIdx ''42''))
   \<and> ''r1'' \<in> set (smembers (snd (removeBoard st_board ''ramp'')) K_runsAll)
   \<and> strs (snd (removeBoard st_board ''ramp'')) (K_applyLock ''ramp'' ''42'') = Some (''r1'', 300)"
  by code_simp

text \<open>
  An index entry that no field of the job's hash accounts for is not found by
  \<open>removeBoard\<close>, which reads the status and the tags of each job and removes the key from
  the indexes they name. The second \<open>addJob\<close> of job 42 leaves such an entry in the
  \<open>applied\<close> index, and it is still there after the board is removed.
\<close>

lemma removeBoard_keeps_stale_index_entry:
  "ck_of ''ramp'' ''42'' \<in> set (smembers st_stale (K_jobStatusIdx ''applied''))
   \<and> fld (hgetall st_stale (K_job ''ramp'' ''42'')) ''status'' = Some ''discovered''
   \<and> fst (removeBoard st_stale ''ramp'')
   \<and> hgetall (snd (removeBoard st_stale ''ramp'')) (K_job ''ramp'' ''42'') = []
   \<and> ck_of ''ramp'' ''42''
       \<in> set (smembers (snd (removeBoard st_stale ''ramp'')) (K_jobStatusIdx ''applied''))"
  by code_simp

text \<open>
  Claim C7 as amended. \<open>removeBoard\<close> answers not-found and changes nothing when the
  board is absent. Otherwise, afterwards, the board's hash, its job index, its membership
  in the boards index and the hash of every job of its job index are gone. If every
  composite key of the board in a status index belongs to a job of the board's job index
  whose status field names that index, then no composite key of the board is in any status
  index afterwards; and likewise for the tag indexes and the tags field. The cascade does
  not reach runs and locks: run hashes, run indexes and apply-lock keys are left as they
  were. For a non-empty board id, \<open>listJobs\<close> filtered by that board returns the empty list.
\<close>

theorem removeBoard_cascade:
  assumes "removeBoard s bid = (ok, s')"
  shows "(\<not> exists_key s (K_board bid) \<longrightarrow> \<not> ok \<and> s' = s)
   \<and> (exists_key s (K_board bid) \<longrightarrow>
        ok
        \<and> hgetall s' (K_board bid) = []
        \<and> smembers s' (K_boardJobsIdx bid) = []
        \<and> bid \<notin> set (smembers s' K_boardsIdx)
        \<and> (\<forall>jid \<in> set (smembers s (K_boardJobsIdx bid)). hgetall s' (K_job bid jid) = [])
        \<and> ((\<forall>jid st. ck_of bid jid \<in> set (smembers s (K_jobStatusIdx st)) \<longrightarrow>
                jid \<in> set (smembers s (K_boardJobsIdx bid))
                \<and> st \<noteq> []
                \<and> fld (hgetall s (K_job bid jid)) ''status'' = Some st)
             \<longrightarrow> (\<forall>jid st. ck_of bid jid \<notin> set (smembers s' (K_jobStatusIdx st))))
        \<and> ((\<forall>jid tag. ck_of bid jid \<in> set (smembers s (K_tagIdx tag)) \<longrightarrow>
                jid \<in> set (smembers s (K_boardJobsIdx bid))
                \<and> tag \<in> set (split_tags (hgetall s (K_job bid jid))))
             \<longrightarrow> (\<forall>jid tag. ck_of bid jid \<notin> set (smembers s' (K_tagIdx tag))))
        \<and> (\<forall>r. hgetall s' (K_run r) = hgetall s (K_run r))
        \<and> (\<forall>j. smembers s' (K_jobRunsIdx j) = smembers s (K_jobRunsIdx j))
        \<and> smembers s' K_runsAll = smembers s K_runsAll
        \<and> (\<forall>b j. strs s' (K_applyLock b j) = strs s (K_applyLock b j))
        \<and> (bid \<noteq> [] \<longrightarrow>
             listJobs s' \<lparr>opt_board = Some bid, opt_status = None, opt_tag = None\<rparr> = []))"
proof (cases "exists_key s (K_board bid)")
  case False
  then show ?thesis using assms by (auto simp add: removeBoard_def)
next
  case True
  note eff = removeBoard_effects [OF assms, THEN conjunct2, rule_format, OF True]
  have s': "s' = execPipe s (removal_pipe s bid)"
    using assms removeBoard_present [OF True] by simp
  have shrinks: "m \<in> set (smembers s k)" if "m \<in> set (smembers s' k)" for m k
    using that unfolding s' smembers_def
    by (rule execPipe_member_grows [OF removal_pipe_no_SAdd])
  have ok: "ok" and board: "hgetall s' (K_board bid) = []"
    and idx: "smembers s' (K_boardJobsIdx bid) = []"
    and boards: "bid \<notin> set (smembers s' K_boardsIdx)"
    using eff by blast+
  have per_job: "hgetall s' (K_job bid jid) = []
              \<and> (truthy (fld (hgetall s (K_job bid jid)) ''status'') \<longrightarrow>
                   ck_of bid jid \<notin> set (smembers s'
                      (K_jobStatusIdx (str (fld (hgetall s (K_job bid jid)) ''status'')))))
              \<and> (\<forall>tag \<in> set (split_tags (hgetall s (K_job bid jid))).
                   ck_of bid jid \<notin> set (smembers s' (K_tagIdx tag)))"
    if "jid \<in> set (smembers s (K_boardJobsIdx bid))" for jid
    using eff that by blast
  have hashes_gone: "\<forall>jid \<in> set (smembers s (K_boardJobsIdx bid)). hgetall s' (K_job bid jid) = []"
    using per_job by blast
  have status_clean: "\<forall>jid st. ck_of bid jid \<notin> set (smembers s' (K_jobStatusIdx st))"
    if inv: "\<forall>jid st. ck_of bid jid \<in> set (smembers s (K_jobStatusIdx st)) \<longrightarrow>
                jid \<in> set (smembers s (K_boardJobsIdx bid))
                \<and> st \<noteq> []
                \<and> fld (hgetall s (K_job bid jid)) ''status'' = Some st"
  proof (intro allI notI)
    fix jid st
    assume m: "ck_of bid jid \<in> set (smembers s' (K_jobStatusIdx st))"
    then have "ck_of bid jid \<in> set (smembers s (K_jobStatusIdx st))" by (rule shrinks)
    then have j: "jid \<in> set (smembers s (K_boardJobsIdx bid))" and ne: "st \<noteq> []"
      and f: "fld (hgetall s (K_job bid jid)) ''status'' = Some st"
      using inv by blast+
    have "ck_of bid jid \<notin> set (smembers s' (K_jobStatusIdx st))"
      using per_job [OF j] f ne by simp
    then show False using m by simp
  qed
  have tag_clean: "\<forall>jid tag. ck_of bid jid \<notin> set (smembers s' (K_tagIdx tag))"
    if inv: "\<forall>jid tag. ck_of bid jid \<in> set (smembers s (K_tagIdx tag)) \<longrightarrow>
                jid \<in> set (smembers s (K_boardJobsIdx bid))
                \<and> tag \<in> set (split_tags (hgetall s (K_job bid jid)))"
  proof (intro allI notI)
    fix jid tag
    assume m: "ck_of bid jid \<in> set (smembers s' (K_tagIdx tag))"
    then have "ck_of bid jid \<in> set (smembers s (K_tagIdx tag))" by (rule shrinks)
    then have j: "jid \<in> set (smembers s (K_boardJobsIdx bid))"
      and t: "tag \<in> set (split_tags (hgetall s (K_job bid jid)))"
      using inv by blast+
    have "ck_of bid jid \<notin> set (smembers s' (K_tagIdx tag))"
      using per_job [OF j] t by blast
    then show False using m by simp
  qed
  have runs: "\<forall>r. hgetall s' (K_run r) = hgetall s (K_run r)"
    and run_idx: "\<forall>j. smembers s' (K_jobRunsIdx j) = smembers s (K_jobRunsIdx j)"
    and all_runs: "smembers s' K_runsAll = smembers s K_runsAll"
    and locks: "\<forall>b j. strs s' (K_applyLock b j) = strs s (K_applyLock b j)"
    and lj: "bid \<noteq> [] \<longrightarrow>
             listJobs s' \<lparr>opt_board = Some bid, opt_status = None, opt_tag = None\<rparr> = []"
    using eff by blast+
  show ?thesis
    using True ok board idx boards hashes_gone status_clean tag_clean runs run_idx all_runs
      locks lj
    by (intro conjI impI) (simp_all only: not_True_eq_False simp_thms)
qed

theorem removeBoard_cascade_witness:
  "removeBoard st_claimed ''ramp'' = (False, st_claimed)
   \<and> fst (removeBoard st_board ''ramp'')
   \<and> hgetall (snd (removeBoard st_board ''ramp'')) (K_board ''ramp'') = []
   \<and> hgetall (snd (removeBoard st_board ''ramp'')) (K_job ''ramp'' ''42'') = []
   \<and> (\<forall>jid st. ck_of ''ramp'' jid
          \<notin> set (smembers (snd (removeBoard st_board ''ramp'')) (K_jobStatusIdx st)))
   \<and> (\<forall>jid tag. ck_of ''ramp'' jid
          \<notin> set (smembers (snd (removeBoard st_board ''ramp'')) (K_tagIdx tag)))
   \<and> hgetall (snd (removeBoard st_board ''ramp'')) (K_run ''r1'') = hgetall st_board (K_run ''r1'')
   \<and> strs (snd (removeBoard st_board ''ramp'')) (K_applyLock ''ramp'' ''42'')
       = strs st_board (K_applyLock ''ramp'' ''42'')
   \<and> listJobs (snd (removeBoard st_board ''ramp''))
         \<lparr>opt_board = Some ''ramp'', opt_status = None, opt_tag = None\<rparr> = []"
proof -
  have absent: "\<not> exists_key st_claimed (K_board ''ramp'')"
    by code_simp
  have present: "exists_key st_board (K_board ''ramp'')"
    by code_simp
  have job: "''42'' \<in> set (smembers st_board (K_boardJobsIdx ''ramp''))"
    by code_simp
  have p1: "removeBoard st_claimed ''ramp''
            = (fst (removeBoard st_claimed ''ramp''), snd (removeBoard st_claimed ''ramp''))"
    by simp
  have p2: "removeBoard st_board ''ramp''
            = (fst (removeBoard st_board ''ramp''), snd (removeBoard st_board ''ramp''))"
    by simp
  have a: "removeBoard st_claimed ''ramp'' = (False, st_claimed)"
    using removeBoard_cascade [OF p1, THEN conjunct1, rule_format, OF absent]
    by (simp add: prod_eq_iff)
  note eff = removeBoard_cascade [OF p2, THEN conjunct2, rule_format, OF present]
  note inv = st_board_no_stale
  have b1: "fst (removeBoard st_board ''ramp'')"
    and b2: "hgetall (snd (removeBoard st_board ''ramp'')) (K_board ''ramp'') = []"
    using eff by blast+
  have b3: "hgetall (snd (removeBoard st_board ''ramp'')) (K_job ''ramp'' ''42'') = []"
    using eff job by blast
  have b4: "\<forall>jid st. ck_of ''ramp'' jid
          \<notin> set (smembers (snd (removeBoard st_board ''ramp'')) (K_jobStatusIdx st))"
    using eff inv [THEN conjunct1] by blast
  have b5: "\<forall>jid tag. ck_of ''ramp'' jid
          \<notin> set (smembers (snd (removeBoard st_board ''ramp'')) (K_tagIdx tag))"
    using eff inv [THEN conjunct2] by blast
  have b6: "hgetall (snd (removeBoard st_board ''ramp'')) (K_run ''r1'') = hgetall st_board (K_run ''r1'')"
    and b7: "strs (snd (removeBoard st_board ''ramp'')) (K_applyLock ''ramp'' ''42'')
       = strs st_board (K_applyLock ''ramp'' ''42'')"
    using eff by blast+
  have b8: "listJobs (snd (removeBoard st_board ''ramp''))
         \<lparr>opt_board = Some ''ramp'', opt_status = None, opt_tag = None\<rparr> = []"
    using eff by simp
  show ?thesis
    using a b1 b2 b3 b4 b5 b6 b7 b8 by (intro conjI)
qed

section \<open>Adding jobs in bulk\<close>

lemma filter_zip_checks:
  "map fst (filter (\<lambda>(j, e). \<not> e) (zip xs (map f xs))) = filter (\<lambda>j. \<not> f j) xs"
  by (induction xs) auto

lemma K_job_ck: "K_job b j = ''job:'' @ ck_of b j"
  by (simp add: K_job_def ck_of_def)

lemma ck_eq_key: "ck_of b j = ck_of b' j' \<Longrightarrow> K_job b j = K_job b' j'"
  by (simp add: K_job_ck)

lemma add_job_cmds_cases:
  "c \<in> set (add_job_cmds now a) \<Longrightarrow>
   (\<exists>fvs. c = HSet (K_job (board a) (job_id a)) fvs)
   \<or> c = SAdd (K_boardJobsIdx (board a)) (job_id a)
   \<or> c = SAdd (K_jobStatusIdx ''discovered'') (ck_of (board a) (job_id a))
   \<or> (\<exists>tag. c = SAdd (K_tagIdx tag) (ck_of (board a) (job_id a)))"
  unfolding add_job_cmds_def Let_def by auto

lemma bulk_pipe_cases:
  "c \<in> set (concat (map (add_job_cmds now) njs)) \<Longrightarrow>
   \<exists>a \<in> set njs.
     (\<exists>fvs. c = HSet (K_job (board a) (job_id a)) fvs)
     \<or> c = SAdd (K_boardJobsIdx (board a)) (job_id a)
     \<or> c = SAdd (K_jobStatusIdx ''discovered'') (ck_of (board a) (job_id a))
     \<or> (\<exists>tag. c = SAdd (K_tagIdx tag) (ck_of (board a) (job_id a)))"
proof -
  assume "c \<in> set (concat (map (add_job_cmds now) njs))"
  then obtain a where "a \<in> set njs" "c \<in> set (add_job_cmds now a)" by auto
  then show ?thesis using add_job_cmds_cases [of c now a] by blast
qed

lemma hashes_add_job_cmds:
  "hashes (execPipe s (add_job_cmds now a)) k =
     hashes (hset s (K_job (board a) (job_id a))
            [(''job_id'', Txt (job_id a)), (''board'', Txt (board a)),
             (''title'', Txt (title a)), (''url'', Txt (url a)),
             (''location'', Txt (location a)), (''department'', Txt (department a)),
             (''tags'', Txt (join '','' (extractTags (title a) (department a)))),
             (''status'', Txt ''discovered''),
             (''discovered_at'', Txt now), (''updated_at'', Txt now)]) k"
proof -
  have "hashes (execPipe s' (map (\<lambda>tag. SAdd (K_tagIdx tag) m) tgs)) k = hashes s' k" for s' m tgs
    by (rule execPipe_hash_kept) auto
  then show ?thesis
    by (simp add: add_job_cmds_def Let_def execPipe_append)
qed

lemma status_add_job_cmds:
  "fld (hashes (execPipe s (add_job_cmds now a)) k) ''status'' =
     (if k = K_job (board a) (job_id a) then Some ''discovered'' else fld (hashes s k) ''status'')"
  by (simp add: hashes_add_job_cmds fld_hset)

lemma status_bulk_pipe:
  "fld (hashes s k) ''status'' = Some ''discovered''
     \<or> (\<exists>a \<in> set njs. k = K_job (board a) (job_id a)) \<Longrightarrow>
   fld (hashes (execPipe s (concat (map (add_job_cmds now) njs))) k) ''status''
     = Some ''discovered''"
proof (induction njs arbitrary: s)
  case Nil
  then show ?case by simp
next
  case (Cons a njs)
  show ?case
  proof (cases "fld (hashes (execPipe s (add_job_cmds now a)) k) ''status'' = Some ''discovered''")
    case True
    then show ?thesis using Cons.IH [of "execPipe s (add_job_cmds now a)"]
      by (simp add: execPipe_append)
  next
    case False
    then have "k \<noteq> K_job (board a) (job_id a)"
      "fld (hashes s k) ''status'' \<noteq> Some ''discovered''"
      by (auto simp add: status_add_job_cmds split: if_splits)
    then have "\<exists>a \<in> set njs. k = K_job (board a) (job_id a)"
      using Cons.prems by auto
    then show ?thesis using Cons.IH [of "execPipe s (add_job_cmds now a)"]
      by (simp add: execPipe_append)
  qed
qed

lemma addJobsBulk_eq:
  "addJobsBulk s now jobs =
     (let newJobs = filter (\<lambda>j. \<not> exists_key s (K_job (board j) (job_id j))) jobs
      in (map (full_job now) newJobs, execPipe s (concat (map (add_job_cmds now) newJobs))))"
  unfolding addJobsBulk_def Let_def filter_zip_checks by auto

lemma full_job_fields [simp]:
  "job_id (full_job now a) = job_id a" "board (full_job now a) = board a"
  "status (full_job now a) = ''discovered''"
  by (simp_all add: full_job_def)

text \<open>
  Claim C8 (\<open>addJobsBulk\<close> skips existing jobs). The list returned is the list of the
  input jobs whose key does not exist yet, each completed with status \<open>discovered\<close>. For an
  input job whose hash exists, the hash is left as it was, whatever fields the input
  carries; its composite key enters or leaves no status index and no tag index; and no
  returned job has its key. Every returned job had no hash before and has a hash with
  status \<open>discovered\<close> afterwards.
\<close>

theorem addJobsBulk_skips_existing:
  assumes "addJobsBulk s now jobs = (res, s')"
  shows "res = map (full_job now)
                 (filter (\<lambda>j. \<not> exists_key s (K_job (board j) (job_id j))) jobs)
     \<and> (\<forall>j \<in> set jobs. hgetall s (K_job (board j) (job_id j)) \<noteq> [] \<longrightarrow>
           hgetall s' (K_job (board j) (job_id j)) = hgetall s (K_job (board j) (job_id j))
           \<and> (\<forall>st. (ck_of (board j) (job_id j) \<in> set (smembers s' (K_jobStatusIdx st)))
                   = (ck_of (board j) (job_id j) \<in> set (smembers s (K_jobStatusIdx st))))
           \<and> (\<forall>t. (ck_of (board j) (job_id j) \<in> set (smembers s' (K_tagIdx t)))
                  = (ck_of (board j) (job_id j) \<in> set (smembers s (K_tagIdx t))))
           \<and> (\<forall>r \<in> set res. K_job (board r) (job_id r) \<noteq> K_job (board j) (job_id j)))
     \<and> (\<forall>r \<in> set res. status r = ''discovered''
           \<and> hgetall s (K_job (board r) (job_id r)) = []
           \<and> fld (hgetall s' (K_job (board r) (job_id r))) ''status'' = Some ''discovered'')"
proof -
  let ?new = "filter (\<lambda>j. \<not> exists_key s (K_job (board j) (job_id j))) jobs"
  let ?pipe = "concat (map (add_job_cmds now) ?new)"
  have res: "res = map (full_job now) ?new" and s': "s' = execPipe s ?pipe"
    using assms by (simp_all add: addJobsBulk_eq Let_def)
  have new_absent: "hashes s (K_job (board a) (job_id a)) = []" if "a \<in> set ?new" for a
    using that by (simp add: exists_key_def)
  have no_HSet: "HSet (K_job b j) fvs \<notin> set ?pipe" if "hashes s (K_job b j) \<noteq> []" for b j fvs
  proof
    assume "HSet (K_job b j) fvs \<in> set ?pipe"
    then obtain a where "a \<in> set ?new" "K_job b j = K_job (board a) (job_id a)"
      using bulk_pipe_cases [of "HSet (K_job b j) fvs" now ?new] by auto
    then show False using that new_absent by auto
  qed
  have no_Del: "Del k \<notin> set ?pipe" for k
    using bulk_pipe_cases [of "Del k" now ?new] by auto
  have no_SRem: "SRem k m \<notin> set ?pipe" for k m
    using bulk_pipe_cases [of "SRem k m" now ?new] by auto
  have no_SAdd_status: "SAdd (K_jobStatusIdx st) (ck_of b j) \<notin> set ?pipe"
    if "hashes s (K_job b j) \<noteq> []" for b j st
  proof
    assume "SAdd (K_jobStatusIdx st) (ck_of b j) \<in> set ?pipe"
    then obtain a where "a \<in> set ?new" "ck_of b j = ck_of (board a) (job_id a)"
      using bulk_pipe_cases [of "SAdd (K_jobStatusIdx st) (ck_of b j)" now ?new] by auto
    then show False using that new_absent ck_eq_key [of b j] by auto
  qed
  have no_SAdd_tag: "SAdd (K_tagIdx t) (ck_of b j) \<notin> set ?pipe"
    if "hashes s (K_job b j) \<noteq> []" for b j t
  proof
    assume "SAdd (K_tagIdx t) (ck_of b j) \<in> set ?pipe"
    then obtain a where "a \<in> set ?new" "ck_of b j = ck_of (board a) (job_id a)"
      using bulk_pipe_cases [of "SAdd (K_tagIdx t) (ck_of b j)" now ?new] by auto
    then show False using that new_absent ck_eq_key [of b j] by auto
  qed
  have kept: "hgetall s' (K_job b j) = hgetall s (K_job b j)
           \<and> (\<forall>st. (ck_of b j \<in> set (smembers s' (K_jobStatusIdx st)))
                   = (ck_of b j \<in> set (smembers s (K_jobStatusIdx st))))
           \<and> (\<forall>t. (ck_of b j \<in> set (smembers s' (K_tagIdx t)))
                  = (ck_of b j \<in> set (smembers s (K_tagIdx t))))
           \<and> (\<forall>r \<in> set res. K_job (board r) (job_id r) \<noteq> K_job b j)"
    if ex: "hgetall s (K_job b j) \<noteq> []" for b j
  proof -
    have ex': "hashes s (K_job b j) \<noteq> []" using ex by (simp add: hgetall_def)
    have h: "hgetall s' (K_job b j) = hgetall s (K_job b j)"
      unfolding s' hgetall_def
      by (intro execPipe_hash_kept allI no_HSet [OF ex'] no_Del)
    have st: "(ck_of b j \<in> set (smembers s' (K_jobStatusIdx st)))
                   = (ck_of b j \<in> set (smembers s (K_jobStatusIdx st)))" for st
      unfolding s' smembers_def
      using execPipe_member_grows [where k = "K_jobStatusIdx st" and m = "ck_of b j"
            and pipe = "?pipe" and s = s]
        execPipe_member_kept [where k = "K_jobStatusIdx st" and m = "ck_of b j"
            and pipe = "?pipe" and s = s]
        no_SAdd_status [OF ex'] no_SRem no_Del
      by blast
    have tg: "(ck_of b j \<in> set (smembers s' (K_tagIdx t)))
                   = (ck_of b j \<in> set (smembers s (K_tagIdx t)))" for t
      unfolding s' smembers_def
      using execPipe_member_grows [where k = "K_tagIdx t" and m = "ck_of b j"
            and pipe = "?pipe" and s = s]
        execPipe_member_kept [where k = "K_tagIdx t" and m = "ck_of b j"
            and pipe = "?pipe" and s = s]
        no_SAdd_tag [OF ex'] no_SRem no_Del
      by blast
    have rs: "K_job (board r) (job_id r) \<noteq> K_job b j" if r: "r \<in> set res" for r
    proof
      assume eq: "K_job (board r) (job_id r) = K_job b j"
      obtain a where a: "a \<in> set ?new" "r = full_job now a"
        using r res by auto
      have "hashes s (K_job (board a) (job_id a)) = []"
        by (rule new_absent [OF a(1)])
      then show False using eq a(2) ex' by simp
    qed
    show ?thesis using h st tg rs by blast
  qed
  have inserted: "status r = ''discovered''
           \<and> hgetall s (K_job (board r) (job_id r)) = []
           \<and> fld (hgetall s' (K_job (board r) (job_id r))) ''status'' = Some ''discovered''"
    if r: "r \<in> set res" for r
  proof -
    obtain a where a: "a \<in> set ?new" "r = full_job now a"
      using r res by auto
    have "fld (hashes s' (K_job (board a) (job_id a))) ''status'' = Some ''discovered''"
      unfolding s' by (rule status_bulk_pipe) (use a(1) in blast)
    then show ?thesis
      using a new_absent [OF a(1)] by (simp add: hgetall_def)
  qed
  show ?thesis
    using res kept inserted by blast
qed

theorem addJobsBulk_skips_existing_witness:
  "fld (hgetall st_applied (K_job ''ramp'' ''42'')) ''status'' = Some ''applied''
   \<and> hgetall (snd (addJobsBulk st_applied ''t5'' bulk_jobs)) (K_job ''ramp'' ''42'')
       = hgetall st_applied (K_job ''ramp'' ''42'')
   \<and> map job_id (fst (addJobsBulk st_applied ''t5'' bulk_jobs)) = [''43'']
   \<and> map status (fst (addJobsBulk st_applied ''t5'' bulk_jobs)) = [''discovered'']
   \<and> fld (hgetall (snd (addJobsBulk st_applied ''t5'' bulk_jobs)) (K_job ''ramp'' ''43''))
         ''status'' = Some ''discovered''"
proof -
  have a: "fld (hgetall st_applied (K_job ''ramp'' ''42'')) ''status'' = Some ''applied''"
    by code_simp
  have ids: "map job_id (fst (addJobsBulk st_applied ''t5'' bulk_jobs)) = [''43'']"
    by code_simp
  have j: "demo_job\<lparr>title := ''Research Intern''\<rparr> \<in> set bulk_jobs"
    by (simp add: bulk_jobs_def)
  have k: "K_job (board (demo_job\<lparr>title := ''Research Intern''\<rparr>))
                 (job_id (demo_job\<lparr>title := ''Research Intern''\<rparr>)) = K_job ''ramp'' ''42''"
    by (simp add: demo_job_def)
  have ex: "hgetall st_applied (K_job ''ramp'' ''42'') \<noteq> []"
    by code_simp
  have p: "addJobsBulk st_applied ''t5'' bulk_jobs
           = (fst (addJobsBulk st_applied ''t5'' bulk_jobs),
              snd (addJobsBulk st_applied ''t5'' bulk_jobs))"
    by simp
  note t = addJobsBulk_skips_existing [OF p]
  have ex': "hgetall st_applied (K_job (board (demo_job\<lparr>title := ''Research Intern''\<rparr>))
                 (job_id (demo_job\<lparr>title := ''Research Intern''\<rparr>))) \<noteq> []"
    using ex k by simp
  have b: "hgetall (snd (addJobsBulk st_applied ''t5'' bulk_jobs)) (K_job ''ramp'' ''42'')
       = hgetall st_applied (K_job ''ramp'' ''42'')"
    using t [THEN conjunct2, THEN conjunct1, rule_format, OF j ex', THEN conjunct1] k by simp
  have c: "map status (fst (addJobsBulk st_applied ''t5'' bulk_jobs)) = [''discovered'']
     \<and> fld (hgetall (snd (addJobsBulk st_applied ''t5'' bulk_jobs)) (K_job ''ramp'' ''43''))
         ''status'' = Some ''discovered''"
    by code_simp
  show ?thesis
    using a b ids c by blast
qed

section \<open>The status indexes\<close>

text \<open>
  Claim C5 (status-index consistency) asks that after any sequence of operations a job's
  composite key is in exactly one status index, the one of its status field.
  \<open>updateJobStatus\<close> keeps this: it takes the key out of the index of the old status.
  \<open>addJob\<close> does not: on a job that exists it writes status \<open>discovered\<close> and adds
  the key to the \<open>discovered\<close> index without taking it out of the index of the status
  the job had. After the scenario (job 42 added, claimed by run \<open>r1\<close>, the run reported
  \<open>success\<close>) the job is \<open>applied\<close>; adding job 42 again leaves its key in both the
  \<open>applied\<close> and the \<open>discovered\<close> index.
\<close>

theorem addJob_again_stale_status_index:
  "fld (hgetall st_applied (K_job ''ramp'' ''42'')) ''status'' = Some ''applied''
   \<and> fld (hgetall (snd (addJob st_applied ''t9'' demo_job)) (K_job ''ramp'' ''42'')) ''status''
       = Some ''discovered''
   \<and> ck_of ''ramp'' ''42''
       \<in> set (smembers (snd (addJob st_applied ''t9'' demo_job)) (K_jobStatusIdx ''discovered''))
   \<and> ck_of ''ramp'' ''42''
       \<in> set (smembers (snd (addJob st_applied ''t9'' demo_job)) (K_jobStatusIdx ''applied''))"
  by code_simp

section \<open>The status of a run\<close>

text \<open>
  Claim C9 says that \<open>updateRun\<close> moves a run only from \<open>pending\<close> to \<open>submitted\<close>,
  \<open>success\<close> or \<open>failed\<close> and from \<open>submitted\<close> to \<open>success\<close> or \<open>failed\<close>. The code
  does not look at the current status: run \<open>r1\<close>, reported \<open>success\<close>, is moved back to
  \<open>pending\<close> by the next update.
\<close>

theorem run_status_counterexample:
  "fld (hgetall st_applied (K_run ''r1'')) ''status'' = Some ''success''
   \<and> fld (hgetall (snd (updateRun st_applied ''t3'' ''r1''
              \<lparr>status_u = Pending, error_u = None, artifacts_u = None\<rparr>)) (K_run ''r1''))
        ''status'' = Some ''pending''"
  by code_simp

lemma createRun_pending:
  assumes "createRun s now run arts = (Inr r, s')"
  shows "jr_status r = Some ''pending''
         \<and> fld (hgetall s' (K_run (run_id run))) ''status'' = Some ''pending''"
proof -
  from assms have lock: "\<not> exists_key s (K_applyLock (board_r run) (job_id_r run))"
    by (auto simp add: createRun_def set_ex_nx_def Let_def split: if_splits)
  from assms lock obtain job where job: "getJob s (board_r run) (job_id_r run) = Some job"
    by (cases "getJob s (board_r run) (job_id_r run)")
       (auto simp add: createRun_def set_ex_nx_def Let_def)
  from assms lock job have st: "fld (row job) ''status'' = Some ''discovered''
      \<or> fld (row job) ''status'' = Some ''queued''"
    by (auto simp add: createRun_def set_ex_nx_def Let_def APPLICABLE_STATUSES_def
        split: if_splits)
  show ?thesis
    using assms
    by (auto simp add: createRun_ok [OF lock job st] Let_def hgetall_def fld_hset
        hashes_updateJobStatus_other split: if_splits)
qed

text \<open>
  Claim C9 as amended: a run that \<open>createRun\<close> creates has status \<open>pending\<close>, in the
  result and in its hash; and for a run that exists, an \<open>updateRun\<close> that returns writes
  the status it is given into the run's hash, whatever status the run had before.
\<close>

theorem run_status_written:
  "(createRun s0 now0 run arts = (Inr r, s1) \<longrightarrow>
      jr_status r = Some ''pending''
      \<and> fld (hgetall s1 (K_run (run_id run))) ''status'' = Some ''pending'')
   \<and> (truthy (fld (hgetall s (K_run rid)) ''run_id'')
        \<and> updateRun s now rid upd = (Inr res, s') \<longrightarrow>
      fld (hgetall s' (K_run rid)) ''status'' = Some (run_status_text (status_u upd)))"
proof -
  have created: "createRun s0 now0 run arts = (Inr r, s1) \<longrightarrow>
      jr_status r = Some ''pending''
      \<and> fld (hgetall s1 (K_run (run_id run))) ''status'' = Some ''pending''"
    using createRun_pending [of s0 now0 run arts r s1] by blast
  have updated: "truthy (fld (hgetall s (K_run rid)) ''run_id'')
        \<and> updateRun s now rid upd = (Inr res, s') \<longrightarrow>
      fld (hgetall s' (K_run rid)) ''status'' = Some (run_status_text (status_u upd))"
  proof (rule impI)
    assume a: "truthy (fld (hgetall s (K_run rid)) ''run_id'')
        \<and> updateRun s now rid upd = (Inr res, s')"
    obtain fvs where f: "update_fields (hgetall s (K_run rid)) now upd = Inr fvs"
      using a by (auto simp add: updateRun_def Let_def split: sum.splits)
    have st: "fld (hashes (hset s (K_run rid) fvs) (K_run rid)) ''status''
              = Some (run_status_text (status_u upd))"
      by (simp add: fld_hset update_fields_status [OF f])
    show "fld (hgetall s' (K_run rid)) ''status'' = Some (run_status_text (status_u upd))"
      using a f st
      by (auto simp add: updateRun_def Let_def hgetall_def hashes_del
          hashes_updateJobStatus_other split: sum.splits if_splits)
  qed
  show ?thesis
    using created updated by (rule conjI)
qed

theorem run_status_written_witness:
  "fld (hgetall st_claimed (K_run ''r1'')) ''status'' = Some ''pending''
   \<and> fld (hgetall (snd (updateRun st_applied ''t3'' ''r1'' (report Submitted))) (K_run ''r1''))
        ''status'' = Some ''submitted''"
proof -
  have "\<not> isl (fst (createRun st_added ''t1'' (demo_run ''r1'') None))"
    by code_simp
  then obtain r where "fst (createRun st_added ''t1'' (demo_run ''r1'') None) = Inr r"
    using not_isl_Inr by blast
  then have c: "createRun st_added ''t1'' (demo_run ''r1'') None = (Inr r, st_claimed)"
    by (simp add: st_claimed_def prod_eq_iff)
  have a: "truthy (fld (hgetall st_applied (K_run ''r1'')) ''run_id'')"
    by code_simp
  have "\<not> isl (fst (updateRun st_applied ''t3'' ''r1'' (report Submitted)))"
    by code_simp
  then obtain res where b: "updateRun st_applied ''t3'' ''r1'' (report Submitted)
      = (Inr res, snd (updateRun st_applied ''t3'' ''r1'' (report Submitted)))"
    using updateRun_Inr_pair by blast
  have "fld (hgetall st_claimed (K_run (run_id (demo_run ''r1'')))) ''status'' = Some ''pending''"
    using run_status_written [THEN conjunct1, rule_format, OF c] by simp
  moreover have "fld (hgetall (snd (updateRun st_applied ''t3'' ''r1'' (report Submitted)))
        (K_run ''r1'')) ''status'' = Some (run_status_text (status_u (report Submitted)))"
    using run_status_written [THEN conjunct2, rule_format, OF conjI [OF a b]] .
  ultimately show ?thesis
    by (simp add: demo_run_def report_def)
qed

end
